theory Spec2Isabelle
  imports Main "HOL-Library.AList"
begin

section \<open>JavaScript values and strings\<close>

text \<open>
  Strings are character lists. The four \<open>String.prototype\<close> methods the sources call are
  written out: \<open>startsWith\<close>, \<open>indexOf\<close> (\<open>-1\<close> when there is no occurrence),
  \<open>includes\<close> and \<open>substring\<close> with one argument (a negative start counts as \<open>0\<close>, a start
  beyond the end gives the empty string).
\<close>

definition startsWith :: "string \<Rightarrow> string \<Rightarrow> bool" where
  "startsWith s p = (take (length p) s = p)"

fun indexOf :: "string \<Rightarrow> string \<Rightarrow> int" where
  "indexOf [] p = (if p = [] then 0 else - 1)"
| "indexOf (c # cs) p =
     (if startsWith (c # cs) p then 0
      else (let i = indexOf cs p in if i < 0 then - 1 else i + 1))"

definition includes_str :: "string \<Rightarrow> string \<Rightarrow> bool" where
  "includes_str s p = (indexOf s p \<noteq> - 1)"

definition substring :: "string \<Rightarrow> int \<Rightarrow> string" where
  "substring s i = drop (nat i) s"

text \<open>
  The values that \<open>JSON.parse\<close> and a configuration module produce. An object is the list of
  its own enumerable string-keyed properties in the order in which JavaScript lists them:
  the array indices in ascending order first, then the other keys in the order of their
  creation. An object that is given (parsed, or exported by a module) is taken to be listed in
  that order. Accessors and inherited properties are outside the model. Numbers are integers
  here (only their truthiness and identity are ever used).
\<close>

datatype js_value =
    JUndefined
  | JNull
  | JBool bool
  | JNum int
  | JStr string
  | JArray "js_value list"
  | JObject "(string \<times> js_value) list"

type_synonym js_object = "(string \<times> js_value) list"

fun truthy :: "js_value \<Rightarrow> bool" where
  "truthy JUndefined = False"
| "truthy JNull = False"
| "truthy (JBool b) = b"
| "truthy (JNum n) = (n \<noteq> 0)"
| "truthy (JStr s) = (s \<noteq> [])"
| "truthy (JArray xs) = True"
| "truthy (JObject ps) = True"

text \<open>What a \<open>throw\<close>, a rejected promise or \<open>process.exit\<close> leaves behind.\<close>

datatype js_error =
    SystemError string
  | Error string
  | TypeError string
  | ProcessExit nat

text \<open>
  The decimal numeral of a number, and the array indices: the keys that are the numeral
  (digits only, no leading zero) of a number below \<open>2^32 - 1\<close>.
\<close>

fun string_of_nat :: "nat \<Rightarrow> string" where
  "string_of_nat n =
     (if n < 10 then [char_of (48 + n)]
      else string_of_nat (n div 10) @ [char_of (48 + n mod 10)])"

declare string_of_nat.simps [simp del]

fun digits_value :: "int \<Rightarrow> string \<Rightarrow> int option" where
  "digits_value acc [] = Some acc"
| "digits_value acc (c # cs) =
     (if 48 \<le> (of_char c :: int) \<and> (of_char c :: int) \<le> 57
      then digits_value (10 * acc + ((of_char c :: int) - 48)) cs
      else None)"

definition array_index :: "string \<Rightarrow> int option" where
  "array_index k =
     (if k = [] \<or> (hd k = CHR ''0'' \<and> k \<noteq> ''0'') then None
      else (case digits_value 0 k of
              None \<Rightarrow> None
            | Some n \<Rightarrow> if n < 4294967295 then Some n else None))"

text \<open>
  \<open>obj[key]\<close> reads an own property. \<open>set_prop\<close> defines an own property, as the object
  spread and an assignment to a key the object does not inherit do: an existing property
  keeps its place, a new array index goes among the array indices, any other new key goes
  last.
\<close>

definition get_prop :: "js_object \<Rightarrow> string \<Rightarrow> js_value" where
  "get_prop ob k = (case map_of ob k of None \<Rightarrow> JUndefined | Some v \<Rightarrow> v)"

fun insert_index :: "int \<Rightarrow> string \<times> js_value \<Rightarrow> js_object \<Rightarrow> js_object" where
  "insert_index n e [] = [e]"
| "insert_index n e (p # ps) =
     (case array_index (fst p) of
        None \<Rightarrow> e # p # ps
      | Some m \<Rightarrow> if m < n then p # insert_index n e ps else e # p # ps)"

definition set_prop :: "js_object \<Rightarrow> string \<Rightarrow> js_value \<Rightarrow> js_object" where
  "set_prop ob k v =
     (if map_of ob k \<noteq> None then AList.update k v ob
      else (case array_index k of
              None \<Rightarrow> ob @ [(k, v)]
            | Some n \<Rightarrow> insert_index n (k, v) ob))"

text \<open>
  The assignment \<open>obj[key] = v\<close> on an object literal whose prototype is
  \<open>Object.prototype\<close>: the key \<open>__proto__\<close> is the inherited accessor, which changes the
  prototype (or does nothing) and writes no own property.
\<close>

definition assign :: "js_object \<Rightarrow> string \<Rightarrow> js_value \<Rightarrow> js_object" where
  "assign ob k v = (if k = ''__proto__'' then ob else set_prop ob k v)"

text \<open>
  The method call \<open>obj.hasOwnProperty(key)\<close> goes through the object. An own property
  named \<open>hasOwnProperty\<close> hides the inherited method; its value is one of the values above,
  none of which can be called, so the call throws.
\<close>

definition hasOwnProperty :: "js_object \<Rightarrow> string \<Rightarrow> js_error + bool" where
  "hasOwnProperty ob k =
     (case map_of ob ''hasOwnProperty'' of
        Some f \<Rightarrow> Inl (TypeError ''hasOwnProperty is not a function'')
      | None \<Rightarrow> Inr (map_of ob k \<noteq> None))"

fun error_code :: "js_error \<Rightarrow> string option" where
  "error_code (SystemError c) = Some c"
| "error_code e = None"

section \<open>\<open>path.join\<close> of Node.js on POSIX\<close>

text \<open>
  \<open>path.join\<close> belongs to the Node.js runtime, not to this repository. Its POSIX behaviour
  is: drop the empty arguments, join the rest with \<open>/\<close>, and normalise: empty and \<open>.\<close>
  segments disappear, a \<open>..\<close> segment removes the segment before it (above the start it is
  kept on a relative path and dropped on an absolute one), a leading and a trailing
  \<open>/\<close> survive, and an empty outcome is \<open>.\<close>.
\<close>

fun split_slash :: "string \<Rightarrow> string list" where
  "split_slash [] = [[]]"
| "split_slash (c # cs) =
     (if c = CHR ''/'' then [] # split_slash cs
      else (case split_slash cs of [] \<Rightarrow> [[c]] | seg # segs \<Rightarrow> (c # seg) # segs))"

fun join_slash :: "string list \<Rightarrow> string" where
  "join_slash [] = []"
| "join_slash [s] = s"
| "join_slash (s # t # ss) = s @ ''/'' @ join_slash (t # ss)"

definition normalize_step :: "bool \<Rightarrow> string list \<Rightarrow> string \<Rightarrow> string list" where
  "normalize_step allowAboveRoot res seg =
     (if seg = [] \<or> seg = ''.'' then res
      else if seg = ''..'' then
        (if res \<noteq> [] \<and> last res \<noteq> ''..'' then butlast res
         else if allowAboveRoot then res @ [''..''] else res)
      else res @ [seg])"

definition normalizeString :: "string \<Rightarrow> bool \<Rightarrow> string" where
  "normalizeString p allowAboveRoot =
     join_slash (foldl (normalize_step allowAboveRoot) [] (split_slash p))"

definition normalize :: "string \<Rightarrow> string" where
  "normalize p =
     (if p = [] then ''.''
      else
        let isAbsolute = (hd p = CHR ''/'');
            trailingSeparator = (last p = CHR ''/'');
            q = normalizeString p (\<not> isAbsolute)
        in if q = [] then (if isAbsolute then ''/'' else if trailingSeparator then ''./'' else ''.'')
           else (if isAbsolute then ''/'' else []) @ q @ (if trailingSeparator then ''/'' else []))"

definition path_join :: "string list \<Rightarrow> string" where
  "path_join args =
     (let parts = filter (\<lambda>a. a \<noteq> []) args
      in if parts = [] then ''.'' else normalize (join_slash parts))"

section \<open>The sandbox resolver plugin (\<open>plugins/bazel-sandbox.js\<close>)\<close>

text \<open>
  \<open>bindir\<close> and \<open>execroot\<close> are read once from the process environment
  (\<open>BAZEL_BINDIR\<close>, \<open>JS_BINARY__EXECROOT\<close>); both are taken as set. \<open>log_debug\<close> is
  \<open>JS_BINARY__LOG_DEBUG\<close>, absent when the variable is not set.
\<close>

record sandbox_env =
  bindir :: string
  execroot :: string
  log_debug :: "string option"

text \<open>
  \<open>pluginData\<close>, the opaque forwarding data of a request, may be any value: a primitive
  (\<open>undefined\<close> when absent), or an object, given by its own properties and by whether
  properties can still be added or changed (\<open>Object.preventExtensions\<close> or \<open>Object.seal\<close>:
  none can be added; \<open>Object.freeze\<close>: none can be added or changed).
\<close>

datatype js_primitive = PUndefined | PNull | PBool bool | PNum int | PStr string

datatype integrity = Extensible | NonExtensible | Frozen

datatype plugin_data = Primitive js_primitive | Bag integrity js_object

fun truthy_data :: "plugin_data \<Rightarrow> bool" where
  "truthy_data (Primitive PUndefined) = False"
| "truthy_data (Primitive PNull) = False"
| "truthy_data (Primitive (PBool b)) = b"
| "truthy_data (Primitive (PNum n)) = (n \<noteq> 0)"
| "truthy_data (Primitive (PStr s)) = (s \<noteq> [])"
| "truthy_data (Bag i ps) = True"

text \<open>
  \<open>data.executedSandboxPlugin\<close> on a truthy value: a primitive has no such property. The
  assignment \<open>data.executedSandboxPlugin = true\<close>, in a module that is not in strict mode:
  on a primitive, and on an object that does not admit the write, it does nothing and
  raises nothing.
\<close>

fun member_read :: "plugin_data \<Rightarrow> string \<Rightarrow> js_value" where
  "member_read (Primitive v) k = JUndefined"
| "member_read (Bag i ps) k = get_prop ps k"

fun member_write :: "plugin_data \<Rightarrow> string \<Rightarrow> js_value \<Rightarrow> plugin_data" where
  "member_write (Primitive p) k v = Primitive p"
| "member_write (Bag Extensible ps) k v = Bag Extensible (set_prop ps k v)"
| "member_write (Bag NonExtensible ps) k v =
     (if map_of ps k \<noteq> None then Bag NonExtensible (set_prop ps k v) else Bag NonExtensible ps)"
| "member_write (Bag Frozen ps) k v = Bag Frozen ps"

text \<open>The arguments of a resolution request besides the specifier.\<close>

record resolve_options =
  importer :: string
  namespace :: string
  resolveDir :: string
  kind :: string
  pluginData :: plugin_data

record resolve_result =
  path :: string
  errors :: "string list option"
  external :: "bool option"

text \<open>
  The file system as the probes see it: \<open>lstat\<close> answers whether the path is a symbolic
  link, \<open>readlink\<close> gives the stored target; either may reject.
\<close>

record filesystem =
  lstat :: "string \<Rightarrow> js_error + bool"
  readlink :: "string \<Rightarrow> js_error + string"

type_synonym resolver = "string \<Rightarrow> resolve_options \<Rightarrow> js_error + resolve_result"

text \<open>Every effect of the plugin is recorded, in order.\<close>

datatype event =
    Lstat string
  | Readlink string
  | BuildResolve string resolve_options
  | ConsoleError string

text \<open>Lines 43--55: the fast path. \<open>None\<close> is \<open>result\<close> still undefined.\<close>

definition fastPath ::
  "filesystem \<Rightarrow> string \<Rightarrow> resolve_options \<Rightarrow> event list \<times> (js_error + resolve_result option)" where
  "fastPath fs importPath otherOptions =
     (if startsWith importPath ''.'' then
        let resolvedPath = path_join [resolveDir otherOptions, importPath] in
        (case lstat fs resolvedPath of
           Inl e \<Rightarrow>
             ([Lstat resolvedPath], if error_code e \<noteq> Some ''ENOENT'' then Inl e else Inr None)
         | Inr isSymbolicLink \<Rightarrow>
             if isSymbolicLink then
               let linkPath = path_join [resolveDir otherOptions, importPath] in
               (case readlink fs linkPath of
                  Inl e \<Rightarrow>
                    ([Lstat resolvedPath, Readlink linkPath],
                     if error_code e \<noteq> Some ''ENOENT'' then Inl e else Inr None)
                | Inr target \<Rightarrow>
                    ([Lstat resolvedPath, Readlink linkPath],
                     Inr (Some \<lparr>path = target, errors = None, external = None\<rparr>)))
             else
               ([Lstat resolvedPath],
                Inr (Some \<lparr>path = resolvedPath, errors = None, external = None\<rparr>)))
      else ([], Inr None))"

text \<open>Lines 57--59: the slow path, taken when the fast path left no result.\<close>

definition slowPath ::
  "resolver \<Rightarrow> string \<Rightarrow> resolve_options \<Rightarrow> resolve_result option
     \<Rightarrow> event list \<times> (js_error + resolve_result)" where
  "slowPath resolve importPath otherOptions result =
     (case result of
        Some r \<Rightarrow> ([], Inr r)
      | None \<Rightarrow> ([BuildResolve importPath otherOptions], resolve importPath otherOptions))"

definition escapeMessage :: "string \<Rightarrow> string \<Rightarrow> string" where
  "escapeMessage bd p =
     ''Error: esbuild resolved a path outside of BAZEL_BINDIR ('' @ bd @ ''): '' @ p"

definition debugMessage :: "string \<Rightarrow> string \<Rightarrow> string" where
  "debugMessage p correctedPath =
     ''DEBUG: [bazel-sandbox] correcting esbuild resolution '' @ p
       @ '' that left the sandbox to '' @ correctedPath @ ''.''"

text \<open>Lines 61--95: the two passthroughs, then escape detection and repair.\<close>

definition correctResult ::
  "sandbox_env \<Rightarrow> resolve_result \<Rightarrow> event list \<times> (js_error + resolve_result)" where
  "correctResult env result =
     (if (case errors result of None \<Rightarrow> False | Some es \<Rightarrow> es \<noteq> []) then ([], Inr result)
      else if \<not> startsWith (path result) ''.'' \<and> \<not> startsWith (path result) ''/''
              \<and> \<not> startsWith (path result) [CHR 0x5C] then ([], Inr result)
      else if \<not> startsWith (path result) (execroot env) then
        (if \<not> includes_str (path result) (bindir env) then
           ([], Inl (Error (escapeMessage (bindir env) (path result))))
         else
           let correctedPath =
                 path_join [execroot env,
                            substring (path result) (indexOf (path result) (bindir env))]
           in ((case log_debug env of
                  None \<Rightarrow> []
                | Some v \<Rightarrow>
                    if v \<noteq> [] then [ConsoleError (debugMessage (path result) correctedPath)]
                    else []),
               Inr (result\<lparr>path := correctedPath\<rparr>)))
      else ([], Inr result))"

definition resolveInExecroot ::
  "sandbox_env \<Rightarrow> filesystem \<Rightarrow> resolver \<Rightarrow> string \<Rightarrow> resolve_options
     \<Rightarrow> event list \<times> (js_error + resolve_result)" where
  "resolveInExecroot env fs resolve importPath otherOptions =
     (case fastPath fs importPath otherOptions of
        (ev1, Inl e) \<Rightarrow> (ev1, Inl e)
      | (ev1, Inr fast) \<Rightarrow>
          (case slowPath resolve importPath otherOptions fast of
             (ev2, Inl e) \<Rightarrow> (ev1 @ ev2, Inl e)
           | (ev2, Inr result) \<Rightarrow>
               (case correctResult env result of
                  (ev3, out) \<Rightarrow> (ev1 @ ev2 @ ev3, out))))"

text \<open>
  Lines 15--30: the \<open>onResolve\<close> callback. The rest object \<open>otherOptions\<close> is a fresh copy
  of the request, but its \<open>pluginData\<close> is the caller's own value, so setting the marker
  writes through to it: the first component is the caller's \<open>pluginData\<close> after the call.
  \<open>Inr None\<close> is the callback returning \<open>undefined\<close>.
\<close>

definition onResolve ::
  "sandbox_env \<Rightarrow> filesystem \<Rightarrow> resolver \<Rightarrow> string \<Rightarrow> resolve_options
     \<Rightarrow> plugin_data \<times> event list \<times> (js_error + resolve_result option)" where
  "onResolve env fs resolve importPath args =
     (if truthy_data (pluginData args) then
        if truthy (member_read (pluginData args) ''executedSandboxPlugin'') then
          (pluginData args, [], Inr None)
        else
          let pd' = member_write (pluginData args) ''executedSandboxPlugin'' (JBool True);
              otherOptions = args\<lparr>pluginData := pd'\<rparr>
          in (case resolveInExecroot env fs resolve importPath otherOptions of
                (ev, out) \<Rightarrow> (pd', ev, map_sum id Some out))
      else
        let otherOptions =
              args\<lparr>pluginData :=
                     member_write (Bag Extensible []) ''executedSandboxPlugin'' (JBool True)\<rparr>
        in (case resolveInExecroot env fs resolve importPath otherOptions of
              (ev, out) \<Rightarrow> (pluginData args, ev, map_sum id Some out)))"

text \<open>The test of lines 19--20: the request already carries the marker.\<close>

definition marked :: "resolve_options \<Rightarrow> bool" where
  "marked opts =
     (truthy_data (pluginData opts)
      \<and> truthy (member_read (pluginData opts) ''executedSandboxPlugin''))"

section \<open>The argument assembler (\<open>launcher.js\<close>)\<close>

text \<open>
  \<open>Object.entries\<close> and the object spread \<open>{...v}\<close> list the own enumerable properties of
  a value: those of an object, the indices of an array or of a string, nothing for the other
  primitives (the spread also accepts \<open>null\<close> and \<open>undefined\<close>, giving nothing).
\<close>

definition indexed :: "js_value list \<Rightarrow> (string \<times> js_value) list" where
  "indexed xs = zip (map string_of_nat [0..<length xs]) xs"

fun entries :: "js_value \<Rightarrow> (string \<times> js_value) list" where
  "entries (JObject ps) = ps"
| "entries (JArray xs) = indexed xs"
| "entries (JStr s) = indexed (map (\<lambda>c. JStr [c]) s)"
| "entries v = []"

text \<open>\<open>{...a, ...b}\<close>: the properties are written one after the other into a fresh object.\<close>

definition object_spread :: "js_value list \<Rightarrow> js_object" where
  "object_spread vs = foldl (\<lambda>ob (k, v). set_prop ob k v) [] (concat (map entries vs))"

text \<open>The array spread \<open>[...v]\<close> iterates \<open>v\<close>; only arrays and strings are iterable here.\<close>

fun iterate :: "js_value \<Rightarrow> js_error + js_value list" where
  "iterate (JArray xs) = Inr xs"
| "iterate (JStr s) = Inr (map (\<lambda>c. JStr [c]) s)"
| "iterate v = Inl (TypeError ''value is not iterable'')"

definition IGNORED_CONFIG_KEYS :: "string list" where
  "IGNORED_CONFIG_KEYS =
     [''bundle'', ''entryPoints'', ''external'', ''metafile'', ''outdir'', ''outfile'',
      ''preserveSymlinks'', ''sourcemap'', ''splitting'']"

definition MERGE_CONFIG_KEYS :: "string list" where
  "MERGE_CONFIG_KEYS = [''define'']"

definition quoted :: "string \<Rightarrow> string" where
  "quoted s = [CHR 0x27] @ s @ [CHR 0x27]"

definition ignoredWarning :: "string \<Rightarrow> string \<Rightarrow> string" where
  "ignoredWarning key configFilePath =
     ''[WARNING] esbuild configuration property '' @ quoted key @ '' from ''
       @ quoted configFilePath @ '' will be ignored and overridden''"

definition mergeWarning :: "string \<Rightarrow> string \<Rightarrow> string" where
  "mergeWarning key configFilePath =
     ''[WARNING] esbuild configuration property '' @ quoted key @ '' from ''
       @ quoted configFilePath @ '' could not be merged''"

text \<open>
  Lines 65--97: the reducer over \<open>Object.entries(config)\<close>. The state is what has been
  written to the standard error stream so far and the accumulator \<open>prev\<close>. The call of
  \<open>hasOwnProperty\<close> (line 76, made only for a mergeable key) and the array spread of a value
  that is not iterable (line 81) may throw, which ends the fold.
\<close>

fun reduceConfig ::
  "string \<Rightarrow> js_object \<Rightarrow> (string \<times> js_value) list \<Rightarrow> string list \<times> js_object
     \<Rightarrow> string list \<times> (js_error + js_object)" where
  "reduceConfig configFilePath existingArgs [] (log, prev) = (log, Inr prev)"
| "reduceConfig configFilePath existingArgs ((key, val) # rest) (log, prev) =
     (if val = JNull \<or> val = JUndefined then
        reduceConfig configFilePath existingArgs rest (log, prev)
      else if key \<in> set IGNORED_CONFIG_KEYS then
        reduceConfig configFilePath existingArgs rest
          (log @ [ignoredWarning key configFilePath], prev)
      else if key \<in> set MERGE_CONFIG_KEYS then
        (case hasOwnProperty existingArgs key of
           Inl e \<Rightarrow> (log, Inl e)
         | Inr False \<Rightarrow>
             reduceConfig configFilePath existingArgs rest (log, assign prev key val)
         | Inr True \<Rightarrow>
             (case val of
                JArray xs \<Rightarrow>
                  (case iterate (get_prop existingArgs key) of
                     Inl e \<Rightarrow> (log, Inl e)
                   | Inr ys \<Rightarrow>
                       reduceConfig configFilePath existingArgs rest
                         (log, assign prev key (JArray (xs @ ys))))
              | JObject ps \<Rightarrow>
                  reduceConfig configFilePath existingArgs rest
                    (log, assign prev key
                            (JObject (object_spread [JObject ps, get_prop existingArgs key])))
              | _ \<Rightarrow>
                  reduceConfig configFilePath existingArgs rest
                    (log @ [mergeWarning key configFilePath], prev)))
      else reduceConfig configFilePath existingArgs rest (log, assign prev key val))"

text \<open>
  The dynamic \<open>import\<close> and \<open>pathToFileURL(join(process.cwd(), ...))\<close> are the runtime's:
  \<open>fileUrl\<close> gives the URL of a configuration path, \<open>import_module\<close> the module
  namespace loaded from a URL or the error of the load. \<open>readParams\<close> is
  \<open>JSON.parse(readFileSync(...))\<close>; a parameter file holds a JSON object.
\<close>

record loader =
  fileUrl :: "string \<Rightarrow> string"
  import_module :: "string \<Rightarrow> js_error + js_object"
  readParams :: "string \<Rightarrow> js_error + js_object"

text \<open>Lines 19--26. \<open>process.exit(1)\<close> ends the run.\<close>

definition getEsbuildArgs :: "loader \<Rightarrow> string \<Rightarrow> string list \<times> (js_error + js_object)" where
  "getEsbuildArgs ld paramsFilePath =
     (case readParams ld paramsFilePath of
        Inl e \<Rightarrow> ([''Error while reading esbuild flags param file''], Inl (ProcessExit 1))
      | Inr v \<Rightarrow> ([], Inr v))"

text \<open>Lines 28--98.\<close>

definition processConfigFile ::
  "loader \<Rightarrow> string \<Rightarrow> js_object \<Rightarrow> string list \<times> (js_error + js_object)" where
  "processConfigFile ld configFilePath existingArgs =
     (case import_module ld (fileUrl ld configFilePath) of
        Inl e \<Rightarrow>
          ([''Error while loading configuration '' @ quoted (fileUrl ld configFilePath) @ '':'' @ [CHR 0x0A]],
           Inl (ProcessExit 1))
      | Inr config \<Rightarrow>
          if \<not> truthy (get_prop config ''default'') then
            ([''Config file '' @ quoted configFilePath
                @ '' was loaded, but did not export a configuration object as default''],
             Inl (ProcessExit 1))
          else reduceConfig configFilePath existingArgs
                 (entries (get_prop config ''default'')) ([], []))"

text \<open>
  Lines 105--119 of \<open>runOneBuild\<close>: the assembly of the build specification, before the
  plugin list is attached and the bundler is called. A flag that is absent or empty is falsy.
\<close>

definition mergeUserArgs ::
  "loader \<Rightarrow> js_object \<Rightarrow> string option \<Rightarrow> string list \<times> (js_error + js_object)" where
  "mergeUserArgs ld args userArgsFilePath =
     (case userArgsFilePath of
        None \<Rightarrow> ([], Inr args)
      | Some f \<Rightarrow>
          if f = [] then ([], Inr args)
          else (case getEsbuildArgs ld f of
                  (log, Inl e) \<Rightarrow> (log, Inl e)
                | (log, Inr u) \<Rightarrow> (log, Inr (object_spread [JObject args, JObject u]))))"

definition mergeConfig ::
  "loader \<Rightarrow> js_object \<Rightarrow> string option \<Rightarrow> string list \<times> (js_error + js_object)" where
  "mergeConfig ld args configFilePath =
     (case configFilePath of
        None \<Rightarrow> ([], Inr args)
      | Some f \<Rightarrow>
          if f = [] then ([], Inr args)
          else (case processConfigFile ld f args of
                  (log, Inl e) \<Rightarrow> (log, Inl e)
                | (log, Inr config) \<Rightarrow> (log, Inr (object_spread [JObject args, JObject config]))))"

definition runOneBuild_args ::
  "loader \<Rightarrow> js_object \<Rightarrow> string option \<Rightarrow> string option
     \<Rightarrow> string list \<times> (js_error + js_object)" where
  "runOneBuild_args ld args userArgsFilePath configFilePath =
     (case mergeUserArgs ld args userArgsFilePath of
        (log1, Inl e) \<Rightarrow> (log1, Inl e)
      | (log1, Inr args1) \<Rightarrow>
          (case mergeConfig ld args1 configFilePath of
             (log2, out) \<Rightarrow> (log1 @ log2, out)))"

section \<open>Sample inputs\<close>

definition sample_env :: sandbox_env where
  "sample_env = \<lparr>bindir = ''bazel-out/k8-fastbuild/bin'', execroot = ''/exec'', log_debug = None\<rparr>"

definition sample_options :: resolve_options where
  "sample_options =
     \<lparr>importer = ''/exec/pkg/main.js'', namespace = ''file'', resolveDir = ''/exec/pkg'',
      kind = ''import-statement'', pluginData = Primitive PUndefined\<rparr>"

definition marked_options :: resolve_options where
  "marked_options =
     sample_options\<lparr>pluginData := Bag Extensible [(''executedSandboxPlugin'', JBool True)]\<rparr>"

definition primitive_options :: resolve_options where
  "primitive_options = sample_options\<lparr>pluginData := Primitive (PStr ''x'')\<rparr>"

definition frozen_options :: resolve_options where
  "frozen_options = sample_options\<lparr>pluginData := Bag Frozen []\<rparr>"

definition found :: "string \<Rightarrow> js_error + resolve_result" where
  "found p = Inr \<lparr>path = p, errors = Some [], external = None\<rparr>"

definition resolves_to :: "string \<Rightarrow> resolver" where
  "resolves_to p importPath opts = found p"

text \<open>A directory \<open>/exec/pkg\<close> holding a regular file, three symbolic links (one of them
  unreadable as a link) and an entry that cannot be probed.\<close>

definition sample_fs :: filesystem where
  "sample_fs =
     \<lparr>lstat = (\<lambda>p. if p = ''/exec/pkg/util.js'' then Inr False
                    else if p = ''/exec/pkg/link.js'' \<or> p = ''/exec/pkg/alias.js''
                            \<or> p = ''/exec/pkg/broken.js'' then Inr True
                    else if p = ''/exec/pkg/locked.js'' then Inl (SystemError ''EACCES'')
                    else Inl (SystemError ''ENOENT'')),
      readlink = (\<lambda>p. if p = ''/exec/pkg/link.js'' then Inr ''./real.js''
                       else if p = ''/exec/pkg/alias.js'' then Inr ''sibling.js''
                       else Inl (SystemError ''EINVAL''))\<rparr>"

text \<open>
  A loader that knows one configuration module, \<open>esbuild.config.mjs\<close> in \<open>/work\<close>, whose
  default export is the given object, and no parameter file.
\<close>

definition sample_loader :: "js_object \<Rightarrow> loader" where
  "sample_loader cfg =
     \<lparr>fileUrl = (\<lambda>p. ''file:///work/'' @ p),
      import_module = (\<lambda>u. if u = ''file:///work/esbuild.config.mjs''
                            then Inr [(''default'', JObject cfg)]
                            else Inl (Error ''Cannot find module'')),
      readParams = (\<lambda>p. Inl (SystemError ''ENOENT''))\<rparr>"

section \<open>Facts about own properties\<close>

lemma map_of_insert_index:
  "map_of ob k = None \<Longrightarrow> map_of (insert_index n (k, v) ob) = (map_of ob)(k \<mapsto> v)"
proof (induction ob)
  case Nil
  then show ?case by simp
next
  case (Cons p ps)
  obtain k' v' where p: "p = (k', v')" by (cases p)
  from Cons.prems p have ne: "k' \<noteq> k" and rest: "map_of ps k = None"
    by (auto split: if_splits)
  show ?case
    using Cons.IH [OF rest] ne
    by (auto simp: p fun_eq_iff split: option.splits)
qed

lemma keys_insert_index:
  "fst ` set (insert_index n e ob) = insert (fst e) (fst ` set ob)"
  by (induction ob) (auto split: option.splits)

lemma distinct_insert_index:
  "distinct (map fst ob) \<Longrightarrow> fst e \<notin> fst ` set ob \<Longrightarrow> distinct (map fst (insert_index n e ob))"
proof (induction ob)
  case Nil
  then show ?case by simp
next
  case (Cons p ps)
  then show ?case
    using keys_insert_index [of n e ps]
    by (auto split: option.splits)
qed

lemma map_of_set_prop: "map_of (set_prop ob k v) = (map_of ob)(k \<mapsto> v)"
  by (auto simp: set_prop_def update_conv' map_of_insert_index fun_eq_iff map_add_def
           split: option.splits)

lemma distinct_set_prop:
  assumes "distinct (map fst ob)"
  shows "distinct (map fst (set_prop ob k v))"
proof (cases "map_of ob k")
  case None
  then have "k \<notin> fst ` set ob" by (simp add: map_of_eq_None_iff)
  with assms None show ?thesis
    by (auto simp: set_prop_def distinct_insert_index split: option.splits)
next
  case (Some w)
  with assms show ?thesis by (simp add: set_prop_def distinct_update)
qed

lemma map_of_assign:
  "map_of (assign ob k v) = (if k = ''__proto__'' then map_of ob else (map_of ob)(k \<mapsto> v))"
  by (simp add: assign_def map_of_set_prop)

lemma distinct_assign:
  "distinct (map fst ob) \<Longrightarrow> distinct (map fst (assign ob k v))"
  by (simp add: assign_def distinct_set_prop)

section \<open>Facts about the string methods\<close>

lemma startsWith_iff: "startsWith s p \<longleftrightarrow> (\<exists>t. s = p @ t)"
proof
  assume "startsWith s p"
  then have "s = p @ drop (length p) s"
    unfolding startsWith_def by (metis append_take_drop_id)
  then show "\<exists>t. s = p @ t" ..
next
  assume "\<exists>t. s = p @ t"
  then show "startsWith s p" unfolding startsWith_def by auto
qed

lemma indexOf_bounds: "- 1 \<le> indexOf s p \<and> indexOf s p \<le> int (length s)"
  by (induction s) (auto simp: Let_def)

lemma indexOf_found:
  "indexOf s p \<noteq> - 1 \<Longrightarrow> startsWith (drop (nat (indexOf s p)) s) p"
proof (induction s)
  case Nil
  then show ?case by (simp add: startsWith_def split: if_splits)
next
  case (Cons c cs)
  show ?case
  proof (cases "startsWith (c # cs) p")
    case True
    then show ?thesis by simp
  next
    case False
    with Cons.prems have ne: "indexOf cs p \<noteq> - 1"
      by (auto simp: Let_def split: if_splits)
    moreover have "0 \<le> indexOf cs p" using ne indexOf_bounds [of cs p] by linarith
    ultimately show ?thesis using False Cons.IH
      by (simp add: Let_def nat_add_distrib)
  qed
qed

lemma indexOf_least:
  "startsWith (drop i s) p \<Longrightarrow> indexOf s p \<noteq> - 1 \<and> nat (indexOf s p) \<le> i"
proof (induction s arbitrary: i)
  case Nil
  then show ?case by (simp add: startsWith_def)
next
  case (Cons c cs)
  show ?case
  proof (cases "startsWith (c # cs) p")
    case True
    then show ?thesis by simp
  next
    case False
    with Cons.prems obtain j where i: "i = Suc j" by (cases i) auto
    with Cons.prems have "startsWith (drop j cs) p" by simp
    from Cons.IH [OF this] have "indexOf cs p \<noteq> - 1" "nat (indexOf cs p) \<le> j" by auto
    moreover have "0 \<le> indexOf cs p" using calculation indexOf_bounds [of cs p] by linarith
    ultimately show ?thesis using False i by (auto simp: Let_def)
  qed
qed

lemma includes_str_iff: "includes_str s p \<longleftrightarrow> (\<exists>a c. s = a @ p @ c)"
proof
  assume "includes_str s p"
  then have ne: "indexOf s p \<noteq> - 1" by (simp add: includes_str_def)
  from indexOf_found [OF this] obtain c where "drop (nat (indexOf s p)) s = p @ c"
    by (auto simp: startsWith_iff)
  then have "s = take (nat (indexOf s p)) s @ p @ c"
    by (metis append_take_drop_id)
  then show "\<exists>a c. s = a @ p @ c" by blast
next
  assume "\<exists>a c. s = a @ p @ c"
  then obtain a c where "s = a @ p @ c" by blast
  then have "startsWith (drop (length a) s) p" by (simp add: startsWith_iff)
  from indexOf_least [OF this] show "includes_str s p" by (simp add: includes_str_def)
qed

lemma first_occurrence:
  assumes "includes_str s p"
  shows "\<exists>a c. s = a @ p @ c \<and> substring s (indexOf s p) = p @ c
           \<and> (\<forall>a' c'. s = a' @ p @ c' \<longrightarrow> length a \<le> length a')"
proof -
  let ?i = "nat (indexOf s p)"
  from assms have ne: "indexOf s p \<noteq> - 1" by (simp add: includes_str_def)
  from indexOf_found [OF ne] obtain c where c: "drop ?i s = p @ c"
    by (auto simp: startsWith_iff)
  have le: "?i \<le> length s" using indexOf_bounds [of s p] by linarith
  have s: "s = take ?i s @ p @ c" using c by (metis append_take_drop_id)
  have "\<forall>a' c'. s = a' @ p @ c' \<longrightarrow> length (take ?i s) \<le> length a'"
  proof (intro allI impI)
    fix a' c' assume "s = a' @ p @ c'"
    then have "startsWith (drop (length a') s) p" by (simp add: startsWith_iff)
    from indexOf_least [OF this] show "length (take ?i s) \<le> length a'" using le by simp
  qed
  with s c show ?thesis unfolding substring_def by blast
qed

section \<open>The stages of \<open>resolveInExecroot\<close>\<close>

lemma resolveInExecroot_obtained:
  assumes "fastPath fs importPath opts = (ev1, Inr fast)"
    and "slowPath resolve importPath opts fast = (ev2, Inr r)"
  shows "resolveInExecroot env fs resolve importPath opts =
           (ev1 @ ev2 @ fst (correctResult env r), snd (correctResult env r))"
  using assms by (simp add: resolveInExecroot_def split: prod.splits)

lemma correctResult_remap:
  assumes "errors r = None \<or> errors r = Some []"
    and "startsWith (path r) ''.'' \<or> startsWith (path r) ''/'' \<or> startsWith (path r) [CHR 0x5C]"
    and "\<not> startsWith (path r) (execroot env)"
    and "includes_str (path r) (bindir env)"
  shows "snd (correctResult env r) =
           Inr (r\<lparr>path := path_join [execroot env,
                                     substring (path r) (indexOf (path r) (bindir env))]\<rparr>)"
  using assms by (auto simp: correctResult_def Let_def)

lemma correctResult_escape:
  assumes "errors r = None \<or> errors r = Some []"
    and "startsWith (path r) ''.'' \<or> startsWith (path r) ''/'' \<or> startsWith (path r) [CHR 0x5C]"
    and "\<not> startsWith (path r) (execroot env)"
    and "\<not> includes_str (path r) (bindir env)"
  shows "correctResult env r = ([], Inl (Error (escapeMessage (bindir env) (path r))))"
  using assms by (auto simp: correctResult_def Let_def)

lemma correctResult_inside:
  assumes "startsWith (path r) (execroot env)"
  shows "correctResult env r = ([], Inr r)"
  using assms by (auto simp: correctResult_def Let_def)



lemma fastPath_events:
  "fastPath fs importPath opts = (ev, out) \<Longrightarrow> BuildResolve q o' \<notin> set ev"
  by (auto simp: fastPath_def Let_def split: if_splits sum.splits)

lemma correctResult_events:
  "BuildResolve q o' \<notin> set (fst (correctResult env r))"
  by (auto simp: correctResult_def Let_def split: option.splits)

lemma resolveInExecroot_events:
  assumes "BuildResolve q o' \<in> set (fst (resolveInExecroot env fs resolve importPath opts))"
  shows "q = importPath \<and> o' = opts"
proof -
  obtain ev1 out1 where f: "fastPath fs importPath opts = (ev1, out1)" by (cases "fastPath fs importPath opts")
  have n1: "BuildResolve q o' \<notin> set ev1" using fastPath_events [OF f] .
  show ?thesis
  proof (cases out1)
    case (Inl e)
    with f assms n1 show ?thesis by (simp add: resolveInExecroot_def)
  next
    case (Inr fast)
    obtain ev2 out2 where s: "slowPath resolve importPath opts fast = (ev2, out2)"
      by (cases "slowPath resolve importPath opts fast")
    have e2: "BuildResolve q o' \<in> set ev2 \<Longrightarrow> q = importPath \<and> o' = opts"
      using s by (auto simp: slowPath_def split: option.splits)
    show ?thesis
    proof (cases out2)
      case (Inl e)
      with f s Inr assms n1 e2 show ?thesis by (auto simp: resolveInExecroot_def)
    next
      case r: (Inr r)
      with f s Inr assms n1 e2 correctResult_events [of q o' env r] show ?thesis
        by (auto simp: resolveInExecroot_def split: prod.splits)
    qed
  qed
qed

section \<open>Properties of the sandbox resolver plugin\<close>






text \<open>
  C6. For a specifier beginning with \<open>.\<close> whose joined path \<open>resolveDir/p\<close> exists and is not
  a symbolic link (\<open>lstat\<close> succeeds and \<open>isSymbolicLink()\<close> is false), the fast path yields
  \<open>{path: resolveDir/p}\<close> after the one \<open>lstat\<close>, and \<open>build.resolve\<close> is never called in
  the whole of \<open>resolveInExecroot\<close>. The result then passes through escape detection like
  any other; when the joined path starts with the execution root it is what
  \<open>resolveInExecroot\<close> returns.
\<close>

theorem fastPath_regular_file:
  assumes "startsWith importPath ''.''"
    and "lstat fs (path_join [resolveDir opts, importPath]) = Inr False"
  shows "fastPath fs importPath opts
           = ([Lstat (path_join [resolveDir opts, importPath])],
              Inr (Some \<lparr>path = path_join [resolveDir opts, importPath],
                         errors = None, external = None\<rparr>))
         \<and> (\<forall>q o'. BuildResolve q o' \<notin> set (fst (resolveInExecroot env fs resolve importPath opts)))
         \<and> (startsWith (path_join [resolveDir opts, importPath]) (execroot env) \<longrightarrow>
              resolveInExecroot env fs resolve importPath opts
                = ([Lstat (path_join [resolveDir opts, importPath])],
                   Inr \<lparr>path = path_join [resolveDir opts, importPath],
                        errors = None, external = None\<rparr>))"
proof -
  let ?j = "path_join [resolveDir opts, importPath]"
  let ?r = "\<lparr>path = ?j, errors = None, external = None\<rparr>"
  have f: "fastPath fs importPath opts = ([Lstat ?j], Inr (Some ?r))"
    using assms by (simp add: fastPath_def Let_def)
  have s: "slowPath resolve importPath opts (Some ?r) = ([], Inr ?r)"
    by (simp add: slowPath_def)
  have whole: "resolveInExecroot env fs resolve importPath opts
                 = ([Lstat ?j] @ [] @ fst (correctResult env ?r), snd (correctResult env ?r))"
    by (rule resolveInExecroot_obtained [OF f s])
  have "\<forall>q o'. BuildResolve q o' \<notin> set (fst (resolveInExecroot env fs resolve importPath opts))"
    using whole correctResult_events [of _ _ env ?r] by simp
  moreover have "startsWith ?j (execroot env) \<longrightarrow>
      resolveInExecroot env fs resolve importPath opts = ([Lstat ?j], Inr ?r)"
    using whole correctResult_inside [of ?r env] by simp
  ultimately show ?thesis using f by blast
qed

theorem fastPath_regular_file_witness:
  "fastPath sample_fs ''./util.js'' sample_options
     = ([Lstat ''/exec/pkg/util.js''],
        Inr (Some \<lparr>path = ''/exec/pkg/util.js'', errors = None, external = None\<rparr>))
   \<and> BuildResolve ''./util.js'' sample_options
        \<notin> set (fst (resolveInExecroot sample_env sample_fs (resolves_to ''/elsewhere'')
                       ''./util.js'' sample_options))
   \<and> resolveInExecroot sample_env sample_fs (resolves_to ''/elsewhere'') ''./util.js'' sample_options
       = ([Lstat ''/exec/pkg/util.js''],
          Inr \<lparr>path = ''/exec/pkg/util.js'', errors = None, external = None\<rparr>)"
proof -
  have j: "path_join [resolveDir sample_options, ''./util.js''] = ''/exec/pkg/util.js''"
    by code_simp
  have h1: "startsWith ''./util.js'' ''.''" by (simp add: startsWith_def)
  have h2: "lstat sample_fs (path_join [resolveDir sample_options, ''./util.js'']) = Inr False"
    unfolding j by (simp add: sample_fs_def)
  have h3: "startsWith (path_join [resolveDir sample_options, ''./util.js'']) (execroot sample_env)"
    unfolding j by (simp add: startsWith_def sample_env_def)
  from fastPath_regular_file [OF h1 h2, of sample_env "resolves_to ''/elsewhere''"] h3
  show ?thesis unfolding j by simp
qed

text \<open>
  C8. Probing a specifier that begins with \<open>.\<close>: when \<open>lstat\<close> fails with \<open>ENOENT\<close> the
  fast path leaves no result and no error, \<open>build.resolve\<close> is called with the request, and
  the outcome is that of the slow path; when \<open>lstat\<close>, or \<open>readlink\<close> on a symbolic link,
  fails with any other error, that error is thrown and \<open>build.resolve\<close> is not called.
\<close>

theorem fastPath_probe_errors:
  assumes "startsWith importPath ''.''"
  shows "(lstat fs (path_join [resolveDir opts, importPath]) = Inl e \<and> error_code e = Some ''ENOENT'' \<longrightarrow>
            fastPath fs importPath opts = ([Lstat (path_join [resolveDir opts, importPath])], Inr None)
            \<and> resolveInExecroot env fs resolve importPath opts
                = (case resolve importPath opts of
                     Inl e' \<Rightarrow>
                       ([Lstat (path_join [resolveDir opts, importPath]),
                         BuildResolve importPath opts], Inl e')
                   | Inr r \<Rightarrow>
                       ([Lstat (path_join [resolveDir opts, importPath]),
                         BuildResolve importPath opts] @ fst (correctResult env r),
                        snd (correctResult env r))))
       \<and> (lstat fs (path_join [resolveDir opts, importPath]) = Inl e \<and> error_code e \<noteq> Some ''ENOENT'' \<longrightarrow>
            resolveInExecroot env fs resolve importPath opts
              = ([Lstat (path_join [resolveDir opts, importPath])], Inl e))
       \<and> (lstat fs (path_join [resolveDir opts, importPath]) = Inr True
            \<and> readlink fs (path_join [resolveDir opts, importPath]) = Inl e
            \<and> error_code e \<noteq> Some ''ENOENT'' \<longrightarrow>
            resolveInExecroot env fs resolve importPath opts
              = ([Lstat (path_join [resolveDir opts, importPath]),
                  Readlink (path_join [resolveDir opts, importPath])], Inl e))"
  using assms
  by (auto simp: resolveInExecroot_def fastPath_def slowPath_def Let_def
           split: sum.splits prod.splits)

theorem fastPath_probe_errors_witness:
  "resolveInExecroot sample_env sample_fs (resolves_to ''/exec/pkg/missing.js.ts'')
       ''./missing.js'' sample_options
     = ([Lstat ''/exec/pkg/missing.js'', BuildResolve ''./missing.js'' sample_options],
        Inr \<lparr>path = ''/exec/pkg/missing.js.ts'', errors = Some [], external = None\<rparr>)
   \<and> resolveInExecroot sample_env sample_fs (resolves_to ''/exec/pkg/locked.js'')
       ''./locked.js'' sample_options
     = ([Lstat ''/exec/pkg/locked.js''], Inl (SystemError ''EACCES''))
   \<and> resolveInExecroot sample_env sample_fs (resolves_to ''/exec/pkg/broken.js'')
       ''./broken.js'' sample_options
     = ([Lstat ''/exec/pkg/broken.js'', Readlink ''/exec/pkg/broken.js''],
        Inl (SystemError ''EINVAL''))"
proof -
  have dot: "\<And>s. startsWith (CHR ''.'' # s) ''.''" by (simp add: startsWith_def)
  have j1: "path_join [resolveDir sample_options, ''./missing.js''] = ''/exec/pkg/missing.js''"
    by code_simp
  have j2: "path_join [resolveDir sample_options, ''./locked.js''] = ''/exec/pkg/locked.js''"
    by code_simp
  have j3: "path_join [resolveDir sample_options, ''./broken.js''] = ''/exec/pkg/broken.js''"
    by code_simp
  have l1: "lstat sample_fs ''/exec/pkg/missing.js'' = Inl (SystemError ''ENOENT'')"
    by (simp add: sample_fs_def)
  have l2: "lstat sample_fs ''/exec/pkg/locked.js'' = Inl (SystemError ''EACCES'')"
    by (simp add: sample_fs_def)
  have l3: "lstat sample_fs ''/exec/pkg/broken.js'' = Inr True"
    by (simp add: sample_fs_def)
  have r3: "readlink sample_fs ''/exec/pkg/broken.js'' = Inl (SystemError ''EINVAL'')"
    by (simp add: sample_fs_def)
  have c: "correctResult sample_env \<lparr>path = ''/exec/pkg/missing.js.ts'', errors = Some [], external = None\<rparr>
             = ([], Inr \<lparr>path = ''/exec/pkg/missing.js.ts'', errors = Some [], external = None\<rparr>)"
    by (simp add: correctResult_def startsWith_def sample_env_def)
  from fastPath_probe_errors [OF dot, of sample_fs sample_options "''/missing.js''"
         "SystemError ''ENOENT''" sample_env "resolves_to ''/exec/pkg/missing.js.ts''"]
  have a: "resolveInExecroot sample_env sample_fs (resolves_to ''/exec/pkg/missing.js.ts'')
       ''./missing.js'' sample_options
     = ([Lstat ''/exec/pkg/missing.js'', BuildResolve ''./missing.js'' sample_options],
        Inr \<lparr>path = ''/exec/pkg/missing.js.ts'', errors = Some [], external = None\<rparr>)"
    unfolding j1 using l1 c by (simp add: resolves_to_def found_def)
  from fastPath_probe_errors [OF dot, of sample_fs sample_options "''/locked.js''"
         "SystemError ''EACCES''" sample_env "resolves_to ''/exec/pkg/locked.js''"]
  have b: "resolveInExecroot sample_env sample_fs (resolves_to ''/exec/pkg/locked.js'')
       ''./locked.js'' sample_options
     = ([Lstat ''/exec/pkg/locked.js''], Inl (SystemError ''EACCES''))"
    unfolding j2 using l2 by simp
  from fastPath_probe_errors [OF dot, of sample_fs sample_options "''/broken.js''"
         "SystemError ''EINVAL''" sample_env "resolves_to ''/exec/pkg/broken.js''"]
  have d: "resolveInExecroot sample_env sample_fs (resolves_to ''/exec/pkg/broken.js'')
       ''./broken.js'' sample_options
     = ([Lstat ''/exec/pkg/broken.js'', Readlink ''/exec/pkg/broken.js''],
        Inl (SystemError ''EINVAL''))"
    unfolding j3 using l3 r3 by simp
  from a b d show ?thesis by simp
qed

text \<open>
  The recursion guard where it works. A request that carries the marker makes the callback
  return \<open>undefined\<close> at once, whatever the specifier: no probe, no call of the resolver,
  and the forwarding data as it was. A request without the marker whose forwarding data is
  falsy or an extensible object is handed to \<open>resolveInExecroot\<close> with forwarding data in
  which \<open>executedSandboxPlugin\<close> is \<open>true\<close>, so every call of \<open>build.resolve\<close> that follows
  carries the marker.
\<close>

lemma onResolve_guard_on_bags:
  "(marked args1 \<longrightarrow> onResolve env fs resolve importPath1 args1 = (pluginData args1, [], Inr None))
   \<and> (\<not> marked args2
        \<and> (\<not> truthy_data (pluginData args2) \<or> (\<exists>ps. pluginData args2 = Bag Extensible ps)) \<longrightarrow>
        (\<exists>pd. member_read pd ''executedSandboxPlugin'' = JBool True
           \<and> snd (onResolve env fs resolve importPath2 args2)
               = (fst (resolveInExecroot env fs resolve importPath2 (args2\<lparr>pluginData := pd\<rparr>)),
                  map_sum id Some
                    (snd (resolveInExecroot env fs resolve importPath2 (args2\<lparr>pluginData := pd\<rparr>)))))
        \<and> (\<forall>q o'. BuildResolve q o' \<in> set (fst (snd (onResolve env fs resolve importPath2 args2)))
               \<longrightarrow> marked o'))"
proof (intro conjI impI)
  assume "marked args1"
  then show "onResolve env fs resolve importPath1 args1 = (pluginData args1, [], Inr None)"
    by (simp add: marked_def onResolve_def)
next
  assume a: "\<not> marked args2
        \<and> (\<not> truthy_data (pluginData args2) \<or> (\<exists>ps. pluginData args2 = Bag Extensible ps))"
  define pd where "pd = (if truthy_data (pluginData args2)
                         then member_write (pluginData args2) ''executedSandboxPlugin'' (JBool True)
                         else member_write (Bag Extensible []) ''executedSandboxPlugin'' (JBool True))"
  have g: "member_read pd ''executedSandboxPlugin'' = JBool True"
    using a by (auto simp: pd_def get_prop_def map_of_set_prop)
  have t: "truthy_data pd"
    using a by (auto simp: pd_def)
  have e: "snd (onResolve env fs resolve importPath2 args2)
             = (fst (resolveInExecroot env fs resolve importPath2 (args2\<lparr>pluginData := pd\<rparr>)),
                map_sum id Some
                  (snd (resolveInExecroot env fs resolve importPath2 (args2\<lparr>pluginData := pd\<rparr>))))"
    using a by (auto simp: marked_def onResolve_def pd_def Let_def split: prod.splits)
  from g e show "\<exists>pd. member_read pd ''executedSandboxPlugin'' = JBool True
           \<and> snd (onResolve env fs resolve importPath2 args2)
               = (fst (resolveInExecroot env fs resolve importPath2 (args2\<lparr>pluginData := pd\<rparr>)),
                  map_sum id Some
                    (snd (resolveInExecroot env fs resolve importPath2 (args2\<lparr>pluginData := pd\<rparr>))))"
    by blast
  show "\<forall>q o'. BuildResolve q o' \<in> set (fst (snd (onResolve env fs resolve importPath2 args2)))
               \<longrightarrow> marked o'"
  proof (intro allI impI)
    fix q o' assume "BuildResolve q o' \<in> set (fst (snd (onResolve env fs resolve importPath2 args2)))"
    then have "BuildResolve q o' \<in> set (fst (resolveInExecroot env fs resolve importPath2 (args2\<lparr>pluginData := pd\<rparr>)))"
      using e by simp
    from resolveInExecroot_events [OF this] have "o' = args2\<lparr>pluginData := pd\<rparr>" by simp
    then show "marked o'" using g t by (simp add: marked_def)
  qed
qed

text \<open>
  C7 (a defect of the code). The forwarding data of a request may be a truthy primitive,
  here the string \<open>x\<close>. The request carries no marker; line 20 reads \<open>undefined\<close>, the
  assignment of line 26 has no effect, and \<open>build.resolve\<close> is called with the very request
  that came in, still without the marker: the marker is not set before resolution work
  proceeds, and the bundler enters the callback again in the same state. The caller's data
  is left as it was. A frozen object without the marker fares the same.
\<close>

theorem onResolve_primitive_data_stays_unmarked:
  "\<not> marked primitive_options
   \<and> onResolve sample_env sample_fs (resolves_to ''/exec/node_modules/lib/x.js'') ''lib/x''
         primitive_options
       = (Primitive (PStr ''x''),
          [BuildResolve ''lib/x'' primitive_options],
          Inr (Some \<lparr>path = ''/exec/node_modules/lib/x.js'', errors = Some [], external = None\<rparr>))
   \<and> \<not> marked frozen_options
   \<and> onResolve sample_env sample_fs (resolves_to ''/exec/node_modules/lib/x.js'') ''lib/x''
         frozen_options
       = (Bag Frozen [],
          [BuildResolve ''lib/x'' frozen_options],
          Inr (Some \<lparr>path = ''/exec/node_modules/lib/x.js'', errors = Some [], external = None\<rparr>))"
  by (simp add: marked_def primitive_options_def frozen_options_def sample_options_def
        onResolve_def Let_def get_prop_def
        resolveInExecroot_def fastPath_def slowPath_def correctResult_def startsWith_def
        resolves_to_def found_def sample_env_def)

text \<open>
  C9. Escape detection and repair are string matches. For a result that is a path: it is
  returned unchanged when its string has the execroot string as a prefix (so
  \<open>/exec-other/x\<close> under execroot \<open>/exec\<close> is left alone); otherwise it is repaired when
  the bindir string occurs anywhere in it, and the repair joins the execroot with the part
  of the path from the first occurrence of the bindir string on; otherwise the error is thrown.
\<close>

theorem sandbox_checks_are_string_matches:
  assumes "fastPath fs importPath opts = (ev1, Inr fast)"
    and "slowPath resolve importPath opts fast = (ev2, Inr r)"
    and "errors r = None \<or> errors r = Some []"
    and "startsWith (path r) ''.'' \<or> startsWith (path r) ''/'' \<or> startsWith (path r) [CHR 0x5C]"
  shows "((\<exists>t. path r = execroot env @ t) \<longrightarrow>
            resolveInExecroot env fs resolve importPath opts = (ev1 @ ev2, Inr r))
       \<and> ((\<nexists>t. path r = execroot env @ t) \<and> (\<exists>a c. path r = a @ bindir env @ c) \<longrightarrow>
            snd (resolveInExecroot env fs resolve importPath opts)
              = Inr (r\<lparr>path := path_join [execroot env,
                                        substring (path r) (indexOf (path r) (bindir env))]\<rparr>)
            \<and> (\<exists>a c. path r = a @ bindir env @ c
                   \<and> substring (path r) (indexOf (path r) (bindir env)) = bindir env @ c
                   \<and> (\<forall>a' c'. path r = a' @ bindir env @ c' \<longrightarrow> length a \<le> length a')))
       \<and> ((\<nexists>t. path r = execroot env @ t) \<and> (\<nexists>a c. path r = a @ bindir env @ c) \<longrightarrow>
            snd (resolveInExecroot env fs resolve importPath opts)
              = Inl (Error (escapeMessage (bindir env) (path r))))"
proof -
  note whole = resolveInExecroot_obtained [OF assms(1,2), of env]
  have inside: "(\<exists>t. path r = execroot env @ t) \<longrightarrow>
      resolveInExecroot env fs resolve importPath opts = (ev1 @ ev2, Inr r)"
    using whole correctResult_inside [of r env] by (simp add: startsWith_iff)
  have remap: "(\<nexists>t. path r = execroot env @ t) \<and> (\<exists>a c. path r = a @ bindir env @ c) \<longrightarrow>
            snd (resolveInExecroot env fs resolve importPath opts)
              = Inr (r\<lparr>path := path_join [execroot env,
                                        substring (path r) (indexOf (path r) (bindir env))]\<rparr>)
            \<and> (\<exists>a c. path r = a @ bindir env @ c
                   \<and> substring (path r) (indexOf (path r) (bindir env)) = bindir env @ c
                   \<and> (\<forall>a' c'. path r = a' @ bindir env @ c' \<longrightarrow> length a \<le> length a'))"
  proof (intro impI, elim conjE)
    assume out: "\<nexists>t. path r = execroot env @ t" and has: "\<exists>a c. path r = a @ bindir env @ c"
    from out have ns: "\<not> startsWith (path r) (execroot env)" by (simp add: startsWith_iff)
    from has have inc: "includes_str (path r) (bindir env)" by (simp add: includes_str_iff)
    from whole correctResult_remap [OF assms(3,4) ns inc] first_occurrence [OF inc]
    show "snd (resolveInExecroot env fs resolve importPath opts)
              = Inr (r\<lparr>path := path_join [execroot env,
                                        substring (path r) (indexOf (path r) (bindir env))]\<rparr>)
            \<and> (\<exists>a c. path r = a @ bindir env @ c
                   \<and> substring (path r) (indexOf (path r) (bindir env)) = bindir env @ c
                   \<and> (\<forall>a' c'. path r = a' @ bindir env @ c' \<longrightarrow> length a \<le> length a'))"
      by simp
  qed
  have escape: "(\<nexists>t. path r = execroot env @ t) \<and> (\<nexists>a c. path r = a @ bindir env @ c) \<longrightarrow>
            snd (resolveInExecroot env fs resolve importPath opts)
              = Inl (Error (escapeMessage (bindir env) (path r)))"
  proof (intro impI, elim conjE)
    assume out: "\<nexists>t. path r = execroot env @ t" and has: "\<nexists>a c. path r = a @ bindir env @ c"
    from out have ns: "\<not> startsWith (path r) (execroot env)" by (simp add: startsWith_iff)
    from has have inc: "\<not> includes_str (path r) (bindir env)" by (simp add: includes_str_iff)
    from whole correctResult_escape [OF assms(3,4) ns inc]
    show "snd (resolveInExecroot env fs resolve importPath opts)
              = Inl (Error (escapeMessage (bindir env) (path r)))" by simp
  qed
  from inside remap escape show ?thesis by blast
qed

theorem sandbox_checks_are_string_matches_witness:
  "resolveInExecroot sample_env sample_fs (resolves_to ''/exec-other/x'') ''lib/x'' sample_options
     = ([BuildResolve ''lib/x'' sample_options],
        Inr \<lparr>path = ''/exec-other/x'', errors = Some [], external = None\<rparr>)
   \<and> snd (resolveInExecroot sample_env sample_fs
            (resolves_to ''/o/bazel-out/k8-fastbuild/bin/a/bazel-out/k8-fastbuild/bin/b'')
            ''lib/x'' sample_options)
     = Inr \<lparr>path = ''/exec/bazel-out/k8-fastbuild/bin/a/bazel-out/k8-fastbuild/bin/b'',
            errors = Some [], external = None\<rparr>
   \<and> snd (resolveInExecroot sample_env sample_fs (resolves_to ''/outside/x'') ''lib/x'' sample_options)
     = Inl (Error (escapeMessage ''bazel-out/k8-fastbuild/bin'' ''/outside/x''))"
proof -
  let ?twice = "''/o/bazel-out/k8-fastbuild/bin/a/bazel-out/k8-fastbuild/bin/b''"
  have h1: "fastPath sample_fs ''lib/x'' sample_options = ([], Inr None)"
    by (simp add: fastPath_def startsWith_def)
  have h2: "\<And>p. slowPath (resolves_to p) ''lib/x'' sample_options None
              = ([BuildResolve ''lib/x'' sample_options],
                 Inr \<lparr>path = p, errors = Some [], external = None\<rparr>)"
    by (simp add: slowPath_def found_def resolves_to_def)
  have h3: "\<And>p. errors \<lparr>path = p, errors = Some [], external = None\<rparr> = None
              \<or> errors \<lparr>path = p, errors = Some [], external = None\<rparr> = Some []"
    by simp
  have h4: "\<And>p. startsWith (path \<lparr>path = CHR ''/'' # p, errors = Some [], external = None\<rparr>) ''.''
              \<or> startsWith (path \<lparr>path = CHR ''/'' # p, errors = Some [], external = None\<rparr>) ''/''
              \<or> startsWith (path \<lparr>path = CHR ''/'' # p, errors = Some [], external = None\<rparr>) [CHR 0x5C]"
    by (simp add: startsWith_def)
  have in1: "\<exists>t. ''/exec-other/x'' = execroot sample_env @ t"
    unfolding startsWith_iff [symmetric] by code_simp
  have out2: "\<nexists>t. ?twice = execroot sample_env @ t"
    unfolding startsWith_iff [symmetric] by code_simp
  have has2: "\<exists>a c. ?twice = a @ bindir sample_env @ c"
    unfolding includes_str_iff [symmetric] by code_simp
  have out3: "\<nexists>t. ''/outside/x'' = execroot sample_env @ t"
    unfolding startsWith_iff [symmetric] by code_simp
  have no3: "\<nexists>a c. ''/outside/x'' = a @ bindir sample_env @ c"
    unfolding includes_str_iff [symmetric] by code_simp
  have e2: "path_join [execroot sample_env, substring ?twice (indexOf ?twice (bindir sample_env))]
              = ''/exec/bazel-out/k8-fastbuild/bin/a/bazel-out/k8-fastbuild/bin/b''"
    by code_simp
  from sandbox_checks_are_string_matches [OF h1 h2 h3 h4, of _ sample_env] in1
  have a: "resolveInExecroot sample_env sample_fs (resolves_to ''/exec-other/x'') ''lib/x'' sample_options
     = ([BuildResolve ''lib/x'' sample_options],
        Inr \<lparr>path = ''/exec-other/x'', errors = Some [], external = None\<rparr>)"
    by simp
  from sandbox_checks_are_string_matches [OF h1 h2 h3 h4, of _ sample_env] out2 has2
  have b: "snd (resolveInExecroot sample_env sample_fs (resolves_to ?twice) ''lib/x'' sample_options)
     = Inr \<lparr>path = ''/exec/bazel-out/k8-fastbuild/bin/a/bazel-out/k8-fastbuild/bin/b'',
            errors = Some [], external = None\<rparr>"
    unfolding e2 [symmetric] by simp
  from sandbox_checks_are_string_matches [OF h1 h2 h3 h4, of _ sample_env] out3 no3
  have c: "snd (resolveInExecroot sample_env sample_fs (resolves_to ''/outside/x'') ''lib/x'' sample_options)
     = Inl (Error (escapeMessage ''bazel-out/k8-fastbuild/bin'' ''/outside/x''))"
    by (simp add: sample_env_def)
  from a b c show ?thesis by simp
qed

text \<open>
  A symbolic link \<open>/exec/pkg/alias.js\<close> whose stored target is the relative path
  \<open>sibling.js\<close>: the target neither starts with the execroot string nor contains the bindir
  string, and yet nothing is thrown. The target begins with none of \<open>.\<close>, \<open>/\<close> and the
  backslash, so it is returned as it is, like a bare module name.
\<close>

theorem symlink_target_taken_raw_counterexample:
  "lstat sample_fs (path_join [resolveDir sample_options, ''./alias.js'']) = Inr True
   \<and> readlink sample_fs (path_join [resolveDir sample_options, ''./alias.js'']) = Inr ''sibling.js''
   \<and> \<not> startsWith ''sibling.js'' ''/''
   \<and> \<not> startsWith ''sibling.js'' (execroot sample_env)
   \<and> \<not> includes_str ''sibling.js'' (bindir sample_env)
   \<and> resolveInExecroot sample_env sample_fs (resolves_to ''/exec/pkg/sibling.js'') ''./alias.js'' sample_options
       = ([Lstat ''/exec/pkg/alias.js'', Readlink ''/exec/pkg/alias.js''],
          Inr \<lparr>path = ''sibling.js'', errors = None, external = None\<rparr>)"
  by code_simp

text \<open>
  C10 (as the code has it). When the joined path of a specifier beginning with \<open>.\<close> is a
  symbolic link, the fast path takes the stored target of the link as the resolved path,
  as \<open>readlink\<close> gives it and not joined to the directory of the link. For every stored
  target that begins with \<open>.\<close>, \<open>/\<close> or a backslash, does not start with the execroot string
  and does not contain the bindir string, \<open>resolveInExecroot\<close> throws the sandbox-escape
  error, naming the raw target. In the witness the target \<open>./real.js\<close> of
  \<open>/exec/pkg/link.js\<close> denotes a file inside the execution root.
\<close>

theorem symlink_target_taken_raw:
  assumes "startsWith importPath ''.''"
    and "lstat fs (path_join [resolveDir opts, importPath]) = Inr True"
    and "readlink fs (path_join [resolveDir opts, importPath]) = Inr target"
    and "startsWith target ''.'' \<or> startsWith target ''/'' \<or> startsWith target [CHR 0x5C]"
    and "\<not> startsWith target (execroot env)"
    and "\<not> includes_str target (bindir env)"
  shows "fastPath fs importPath opts
           = ([Lstat (path_join [resolveDir opts, importPath]),
               Readlink (path_join [resolveDir opts, importPath])],
              Inr (Some \<lparr>path = target, errors = None, external = None\<rparr>))
         \<and> resolveInExecroot env fs resolve importPath opts
           = ([Lstat (path_join [resolveDir opts, importPath]),
               Readlink (path_join [resolveDir opts, importPath])],
              Inl (Error (escapeMessage (bindir env) target)))"
proof -
  let ?j = "path_join [resolveDir opts, importPath]"
  let ?r = "\<lparr>path = target, errors = None, external = None\<rparr>"
  have f: "fastPath fs importPath opts = ([Lstat ?j, Readlink ?j], Inr (Some ?r))"
    using assms(1-3) by (simp add: fastPath_def Let_def)
  have s: "slowPath resolve importPath opts (Some ?r) = ([], Inr ?r)"
    by (simp add: slowPath_def)
  have c: "correctResult env ?r = ([], Inl (Error (escapeMessage (bindir env) (path ?r))))"
    by (rule correctResult_escape) (use assms(4-6) in simp_all)
  from resolveInExecroot_obtained [OF f s, of env] c f show ?thesis by simp
qed

theorem symlink_target_taken_raw_witness:
  "resolveInExecroot sample_env sample_fs (resolves_to ''/exec/pkg/real.js'') ''./link.js'' sample_options
     = ([Lstat ''/exec/pkg/link.js'', Readlink ''/exec/pkg/link.js''],
        Inl (Error (escapeMessage ''bazel-out/k8-fastbuild/bin'' ''./real.js'')))
   \<and> startsWith (path_join [''/exec/pkg'', ''./real.js'']) (execroot sample_env)"
proof -
  have j: "path_join [resolveDir sample_options, ''./link.js''] = ''/exec/pkg/link.js''"
    by code_simp
  have h1: "startsWith ''./link.js'' ''.''" by (simp add: startsWith_def)
  have h2: "lstat sample_fs (path_join [resolveDir sample_options, ''./link.js'']) = Inr True"
    unfolding j by (simp add: sample_fs_def)
  have h3: "readlink sample_fs (path_join [resolveDir sample_options, ''./link.js'']) = Inr ''./real.js''"
    unfolding j by (simp add: sample_fs_def)
  have h4: "startsWith ''./real.js'' ''.'' \<or> startsWith ''./real.js'' ''/'' \<or> startsWith ''./real.js'' [CHR 0x5C]"
    by (simp add: startsWith_def)
  have h5: "\<not> startsWith ''./real.js'' (execroot sample_env)"
    by (simp add: startsWith_def sample_env_def)
  have h6: "\<not> includes_str ''./real.js'' (bindir sample_env)"
    by code_simp
  have inside: "startsWith (path_join [''/exec/pkg'', ''./real.js'']) (execroot sample_env)"
    by code_simp
  from symlink_target_taken_raw [OF h1 h2 h3 h4 h5 h6, of "resolves_to ''/exec/pkg/real.js''"] inside
  show ?thesis unfolding j by (simp add: sample_env_def)
qed

section \<open>Facts about objects and the reducer\<close>

lemma map_of_rev_distinct:
  assumes "distinct (map fst xs)"
  shows "map_of (rev xs) = map_of xs"
proof (rule ext)
  fix k
  have d: "distinct (map fst (rev xs))" using assms by (simp add: rev_map [symmetric])
  show "map_of (rev xs) k = map_of xs k"
  proof (cases "map_of xs k")
    case None
    then have "k \<notin> fst ` set xs" by (simp add: map_of_eq_None_iff)
    then have "map_of (rev xs) k = None" by (simp add: map_of_eq_None_iff)
    with None show ?thesis by simp
  next
    case (Some v)
    then have "(k, v) \<in> set (rev xs)" using assms by simp
    then have "map_of (rev xs) k = Some v" using d by simp
    with Some show ?thesis by simp
  qed
qed

lemma map_of_write_all:
  "map_of (foldl (\<lambda>ob (k, v). set_prop ob k v) acc xs) = map_of acc ++ map_of (rev xs)"
proof (induction xs arbitrary: acc)
  case Nil
  then show ?case by simp
next
  case (Cons x xs)
  obtain k v where x: "x = (k, v)" by (cases x)
  have "map_of (foldl (\<lambda>ob (k, v). set_prop ob k v) acc (x # xs))
          = map_of (set_prop acc k v) ++ map_of (rev xs)"
    using Cons.IH [of "set_prop acc k v"] x by simp
  also have "\<dots> = map_of acc ++ map_of (rev (x # xs))"
    by (rule ext) (simp add: x map_of_set_prop map_add_def split: option.splits)
  finally show ?case .
qed

lemma distinct_write_all:
  "distinct (map fst acc) \<Longrightarrow> distinct (map fst (foldl (\<lambda>ob (k, v). set_prop ob k v) acc xs))"
  by (induction xs arbitrary: acc) (auto simp: distinct_set_prop)

lemma map_of_object_spread:
  assumes "distinct (map fst a)" and "distinct (map fst b)"
  shows "map_of (object_spread [JObject a, JObject b]) = map_of a ++ map_of b"
proof -
  have "map_of (object_spread [JObject a, JObject b]) = map_of (rev (a @ b))"
    by (simp add: object_spread_def map_of_write_all)
  also have "\<dots> = map_of (rev a) ++ map_of (rev b)" by simp
  finally show ?thesis using assms by (simp add: map_of_rev_distinct)
qed

lemma distinct_object_spread: "distinct (map fst (object_spread vs))"
  by (simp add: object_spread_def distinct_write_all)

lemma ignoredWarning_inject:
  "ignoredWarning k f = ignoredWarning k' f \<longleftrightarrow> k = k'"
  by (simp add: ignoredWarning_def quoted_def)

lemma mergeWarning_not_ignoredWarning:
  "mergeWarning k' f \<noteq> ignoredWarning k f"
proof
  assume "mergeWarning k' f = ignoredWarning k f"
  then have "last (mergeWarning k' f) = last (ignoredWarning k f)" by simp
  then show False by (simp add: mergeWarning_def ignoredWarning_def)
qed

lemma reduceConfig_ignored_key:
  assumes "reduceConfig f ex cfg (log0, prev0) = (log, Inr prev)"
    and "k \<in> set IGNORED_CONFIG_KEYS"
  shows "map_of prev k = map_of prev0 k"
  using assms
proof (induction cfg arbitrary: log0 prev0)
  case Nil
  then show ?case by simp
next
  case (Cons e cfg)
  obtain key val where e: "e = (key, val)" by (cases e)
  from Cons.prems(1) Cons.IH Cons.prems(2) show ?case
    unfolding e
    by (auto simp: map_of_assign split: if_splits js_value.splits sum.splits bool.splits)
qed

lemma reduceConfig_absent_key:
  assumes "reduceConfig f ex cfg (log0, prev0) = (log, Inr prev)"
    and "k \<notin> fst ` set cfg"
  shows "map_of prev k = map_of prev0 k
         \<and> count_list log (ignoredWarning k f) = count_list log0 (ignoredWarning k f)"
  using assms
proof (induction cfg arbitrary: log0 prev0)
  case Nil
  then show ?case by simp
next
  case (Cons e cfg)
  obtain key val where e: "e = (key, val)" by (cases e)
  from Cons.prems(2) have ne: "key \<noteq> k" and rest: "k \<notin> fst ` set cfg" by (auto simp: e)
  from Cons.prems(1) Cons.IH [OF _ rest] ne show ?case
    unfolding e
    by (auto simp: map_of_assign ignoredWarning_inject mergeWarning_not_ignoredWarning
             split: if_splits js_value.splits sum.splits bool.splits)
qed

lemma reduceConfig_ignored_warning:
  assumes "reduceConfig f ex cfg (log0, prev0) = (log, Inr prev)"
    and "distinct (map fst cfg)"
    and "k \<in> set IGNORED_CONFIG_KEYS"
    and "map_of cfg k = Some v" and "v \<noteq> JNull" and "v \<noteq> JUndefined"
  shows "count_list log (ignoredWarning k f) = Suc (count_list log0 (ignoredWarning k f))"
  using assms
proof (induction cfg arbitrary: log0 prev0)
  case Nil
  then show ?case by simp
next
  case (Cons e cfg)
  obtain key val where e: "e = (key, val)" by (cases e)
  show ?case
  proof (cases "key = k")
    case True
    with Cons.prems(4) e have val: "val = v" by simp
    from Cons.prems(2) e True have absent: "k \<notin> fst ` set cfg" by auto
    from Cons.prems(1) have "reduceConfig f ex cfg (log0 @ [ignoredWarning k f], prev0) = (log, Inr prev)"
      using Cons.prems(3,5,6) by (simp add: e True val)
    from reduceConfig_absent_key [OF this absent] show ?thesis by simp
  next
    case False
    with Cons.prems(4) e have m: "map_of cfg k = Some v" by simp
    from Cons.prems(2) e have d: "distinct (map fst cfg)" by simp
    note ih = Cons.IH [OF _ d Cons.prems(3) m Cons.prems(5,6)]
    from Cons.prems(1) ih False show ?thesis
      unfolding e
      by (auto simp: ignoredWarning_inject mergeWarning_not_ignoredWarning
               split: if_splits js_value.splits sum.splits bool.splits)
  qed
qed

lemma reduceConfig_plain_key:
  assumes "reduceConfig f ex cfg (log0, prev0) = (log, Inr prev)"
    and "distinct (map fst cfg)"
    and "k \<notin> set IGNORED_CONFIG_KEYS"
    and "k \<notin> set MERGE_CONFIG_KEYS"
    and "k \<noteq> ''__proto__''"
    and "map_of cfg k = Some v" and "v \<noteq> JNull" and "v \<noteq> JUndefined"
  shows "map_of prev k = Some v"
  using assms
proof (induction cfg arbitrary: log0 prev0)
  case Nil
  then show ?case by simp
next
  case (Cons e cfg)
  obtain key val where e: "e = (key, val)" by (cases e)
  show ?case
  proof (cases "key = k")
    case True
    with Cons.prems(6) e have val: "val = v" by simp
    from Cons.prems(2) e True have absent: "k \<notin> fst ` set cfg" by auto
    from Cons.prems(1) have "reduceConfig f ex cfg (log0, assign prev0 k v) = (log, Inr prev)"
      using Cons.prems(3,4,7,8) by (auto simp: e True val)
    from reduceConfig_absent_key [OF this absent] show ?thesis
      using Cons.prems(5) by (simp add: map_of_assign)
  next
    case False
    with Cons.prems(6) e have m: "map_of cfg k = Some v" by simp
    from Cons.prems(2) e have d: "distinct (map fst cfg)" by simp
    note ih = Cons.IH [OF _ d Cons.prems(3,4,5) m Cons.prems(7,8)]
    from Cons.prems(1) ih show ?thesis
      unfolding e by (auto split: if_splits js_value.splits sum.splits bool.splits)
  qed
qed

lemma reduceConfig_merged_key:
  assumes "reduceConfig f ex cfg (log0, prev0) = (log, Inr prev)"
    and "distinct (map fst cfg)"
    and "k \<in> set MERGE_CONFIG_KEYS" and "hasOwnProperty ex k = Inr True"
    and "map_of cfg k = Some v"
  shows "(\<forall>ps. v = JObject ps \<longrightarrow>
            map_of prev k = Some (JObject (object_spread [JObject ps, get_prop ex k])))
       \<and> (\<forall>xs. v = JArray xs \<longrightarrow>
            (\<exists>ys. iterate (get_prop ex k) = Inr ys \<and> map_of prev k = Some (JArray (xs @ ys))))"
  using assms
proof (induction cfg arbitrary: log0 prev0)
  case Nil
  then show ?case by simp
next
  case (Cons e cfg)
  obtain key val where e: "e = (key, val)" by (cases e)
  have ni: "k \<notin> set IGNORED_CONFIG_KEYS" and np: "k \<noteq> ''__proto__''"
    using Cons.prems(3) by (auto simp: MERGE_CONFIG_KEYS_def IGNORED_CONFIG_KEYS_def)
  show ?case
  proof (cases "key = k")
    case True
    with Cons.prems(5) e have val: "val = v" by simp
    from Cons.prems(2) e True have absent: "k \<notin> fst ` set cfg" by auto
    show ?thesis
    proof (intro conjI allI impI)
      fix ps assume v: "v = JObject ps"
      from Cons.prems(1) have "reduceConfig f ex cfg
          (log0, assign prev0 k (JObject (object_spread [JObject ps, get_prop ex k]))) = (log, Inr prev)"
        using Cons.prems(3,4) ni by (simp add: e True val v)
      from reduceConfig_absent_key [OF this absent]
      show "map_of prev k = Some (JObject (object_spread [JObject ps, get_prop ex k]))"
        using np by (simp add: map_of_assign)
    next
      fix xs assume v: "v = JArray xs"
      from Cons.prems(1) obtain ys where ys: "iterate (get_prop ex k) = Inr ys"
        and "reduceConfig f ex cfg (log0, assign prev0 k (JArray (xs @ ys))) = (log, Inr prev)"
        using Cons.prems(3,4) ni by (auto simp: e True val v split: sum.splits)
      from reduceConfig_absent_key [OF this(2) absent] ys
      show "\<exists>ys. iterate (get_prop ex k) = Inr ys \<and> map_of prev k = Some (JArray (xs @ ys))"
        using np by (simp add: map_of_assign)
    qed
  next
    case False
    with Cons.prems(5) e have m: "map_of cfg k = Some v" by simp
    from Cons.prems(2) e have d: "distinct (map fst cfg)" by simp
    note ih = Cons.IH [OF _ d Cons.prems(3,4) m]
    from Cons.prems(1) ih show ?thesis
      unfolding e by (auto split: if_splits js_value.splits sum.splits bool.splits)
  qed
qed

lemma reduceConfig_succeeds:
  assumes "\<forall>k v. (k, v) \<in> set cfg \<and> v \<noteq> JNull \<and> v \<noteq> JUndefined \<and> k \<in> set MERGE_CONFIG_KEYS
             \<longrightarrow> (\<exists>b. hasOwnProperty ex k = Inr b)
                 \<and> (\<forall>xs. v = JArray xs \<and> hasOwnProperty ex k = Inr True
                        \<longrightarrow> (\<exists>ys. iterate (get_prop ex k) = Inr ys))"
  shows "\<exists>log prev. reduceConfig f ex cfg (log0, prev0) = (log, Inr prev)"
  using assms
proof (induction cfg arbitrary: log0 prev0)
  case Nil
  then show ?case by simp
next
  case (Cons e cfg)
  obtain key val where e: "e = (key, val)" by (cases e)
  from Cons.prems have rest: "\<forall>k v. (k, v) \<in> set cfg \<and> v \<noteq> JNull \<and> v \<noteq> JUndefined \<and> k \<in> set MERGE_CONFIG_KEYS
             \<longrightarrow> (\<exists>b. hasOwnProperty ex k = Inr b)
                 \<and> (\<forall>xs. v = JArray xs \<and> hasOwnProperty ex k = Inr True
                        \<longrightarrow> (\<exists>ys. iterate (get_prop ex k) = Inr ys))"
    by auto
  note ih = Cons.IH [OF rest]
  show ?case
  proof (cases "val \<noteq> JNull \<and> val \<noteq> JUndefined \<and> key \<notin> set IGNORED_CONFIG_KEYS
                \<and> key \<in> set MERGE_CONFIG_KEYS")
    case True
    then have c: "(key, val) \<in> set (e # cfg) \<and> val \<noteq> JNull \<and> val \<noteq> JUndefined
                  \<and> key \<in> set MERGE_CONFIG_KEYS"
      by (simp add: e)
    from Cons.prems [rule_format, OF c]
    obtain b where b: "hasOwnProperty ex key = Inr b"
      and arr: "\<forall>xs. val = JArray xs \<and> hasOwnProperty ex key = Inr True
                  \<longrightarrow> (\<exists>ys. iterate (get_prop ex key) = Inr ys)"
      by blast
    show ?thesis
    proof (cases b)
      case False
      with True b ih show ?thesis by (simp add: e)
    next
      case tb: True
      show ?thesis
      proof (cases val)
        case (JArray xs)
        with arr b tb obtain ys where "iterate (get_prop ex key) = Inr ys" by auto
        with True b tb ih show ?thesis by (simp add: e JArray)
      qed (use True b tb ih in \<open>auto simp: e\<close>)
    qed
  next
    case False
    with ih show ?thesis by (auto simp: e)
  qed
qed

lemma reduceConfig_distinct:
  assumes "reduceConfig f ex cfg (log0, prev0) = (log, Inr prev)"
    and "distinct (map fst prev0)"
  shows "distinct (map fst prev)"
  using assms
proof (induction cfg arbitrary: log0 prev0)
  case Nil
  then show ?case by simp
next
  case (Cons e cfg)
  obtain key val where e: "e = (key, val)" by (cases e)
  from Cons.prems(1) Cons.IH Cons.prems(2) show ?case
    unfolding e
    by (auto simp: distinct_assign split: if_splits js_value.splits sum.splits bool.splits)
qed

lemma mergeUserArgs_quiet:
  "mergeUserArgs ld args u = (log1, Inr existing) \<Longrightarrow> log1 = []"
  by (auto simp: mergeUserArgs_def getEsbuildArgs_def split: option.splits if_splits sum.splits)

lemma runOneBuild_args_config:
  assumes "mergeUserArgs ld args u = (log1, Inr existing)"
    and "f \<noteq> []"
    and "import_module ld (fileUrl ld f) = Inr module"
    and "get_prop module ''default'' = JObject cfg"
    and "reduceConfig f existing cfg ([], []) = (log2, Inr config)"
  shows "runOneBuild_args ld args u (Some f)
           = (log2, Inr (object_spread [JObject existing, JObject config]))"
  using assms mergeUserArgs_quiet [OF assms(1)]
  by (simp add: runOneBuild_args_def mergeConfig_def processConfigFile_def)

lemma runOneBuild_args_completed:
  assumes "mergeUserArgs ld args u = (log1, Inr existing)"
    and "f \<noteq> []"
    and "import_module ld (fileUrl ld f) = Inr module"
    and "get_prop module ''default'' = JObject cfg"
    and "runOneBuild_args ld args u (Some f) = (log, Inr merged)"
  shows "\<exists>config. reduceConfig f existing cfg ([], []) = (log, Inr config)
           \<and> merged = object_spread [JObject existing, JObject config]"
  using assms mergeUserArgs_quiet [OF assms(1)]
  by (auto simp: runOneBuild_args_def mergeConfig_def processConfigFile_def
           split: prod.splits sum.splits)

lemma merged_lookup:
  assumes "reduceConfig f existing cfg ([], []) = (log2, Inr config)"
    and "distinct (map fst existing)"
  shows "map_of (object_spread [JObject existing, JObject config]) = map_of existing ++ map_of config"
  using map_of_object_spread [OF assms(2)] reduceConfig_distinct [OF assms(1)] by simp

text \<open>
  The fold throws only while it handles a mergeable key. The assembly completes when the
  configuration module has no \<open>define\<close>, and also when the arguments have no own key
  \<open>hasOwnProperty\<close> and no \<open>define\<close> array meets an existing \<open>define\<close> that cannot be iterated.
\<close>

lemma assembly_completes:
  assumes "mergeUserArgs ld args u = (log1, Inr existing)"
    and "f \<noteq> []"
    and "import_module ld (fileUrl ld f) = Inr module"
    and "get_prop module ''default'' = JObject cfg"
    and "distinct (map fst cfg)"
    and "map_of cfg ''define'' = None
         \<or> (map_of existing ''hasOwnProperty'' = None
            \<and> (\<forall>xs. map_of cfg ''define'' = Some (JArray xs) \<and> map_of existing ''define'' \<noteq> None
                   \<longrightarrow> (\<exists>ys. iterate (get_prop existing ''define'') = Inr ys)))"
  shows "\<exists>log merged. runOneBuild_args ld args u (Some f) = (log, Inr merged)"
proof -
  have ok: "\<forall>k v. (k, v) \<in> set cfg \<and> v \<noteq> JNull \<and> v \<noteq> JUndefined \<and> k \<in> set MERGE_CONFIG_KEYS
             \<longrightarrow> (\<exists>b. hasOwnProperty existing k = Inr b)
                 \<and> (\<forall>xs. v = JArray xs \<and> hasOwnProperty existing k = Inr True
                        \<longrightarrow> (\<exists>ys. iterate (get_prop existing k) = Inr ys))"
  proof (intro allI impI, elim conjE)
    fix k v assume in_cfg: "(k, v) \<in> set cfg" and mk: "k \<in> set MERGE_CONFIG_KEYS"
    from mk have k: "k = ''define''" by (simp add: MERGE_CONFIG_KEYS_def)
    from in_cfg assms(5) have m: "map_of cfg ''define'' = Some v" unfolding k by simp
    with assms(6) have ns: "map_of existing ''hasOwnProperty'' = None"
      and arr: "\<forall>xs. map_of cfg ''define'' = Some (JArray xs) \<and> map_of existing ''define'' \<noteq> None
                   \<longrightarrow> (\<exists>ys. iterate (get_prop existing ''define'') = Inr ys)"
      by auto
    show "(\<exists>b. hasOwnProperty existing k = Inr b)
                 \<and> (\<forall>xs. v = JArray xs \<and> hasOwnProperty existing k = Inr True
                        \<longrightarrow> (\<exists>ys. iterate (get_prop existing k) = Inr ys))"
      using ns arr m unfolding k by (auto simp: hasOwnProperty_def)
  qed
  from reduceConfig_succeeds [OF ok]
  obtain log2 config where "reduceConfig f existing cfg ([], []) = (log2, Inr config)" by blast
  from runOneBuild_args_config [OF assms(1-4) this] show ?thesis by blast
qed

section \<open>Properties of the argument assembler\<close>

text \<open>
  The inline arguments set \<open>minify\<close> to \<open>false\<close> and the configuration module sets it to
  \<open>true\<close>: the merged specification holds \<open>true\<close>. The key is neither ignored nor mergeable.
\<close>

theorem config_value_overrides_counterexample:
  "runOneBuild_args (sample_loader [(''minify'', JBool True)]) [(''minify'', JBool False)]
       None (Some ''esbuild.config.mjs'')
     = ([], Inr [(''minify'', JBool True)])
   \<and> ''minify'' \<notin> set IGNORED_CONFIG_KEYS
   \<and> ''minify'' \<notin> set MERGE_CONFIG_KEYS"
  by code_simp

text \<open>
  C3 (as the code has it). Let the default export of the configuration module be an object
  with no own key \<open>__proto__\<close>, and let it supply a key, neither ignored nor mergeable, with
  a value other than \<open>null\<close> and \<open>undefined\<close>. Whenever the assembly completes, the merged
  specification holds the value of the configuration module for that key, whatever the
  inline and parameter-file arguments had for it: line 117 spreads the configuration after
  them. The assembly completes when the module has no \<open>define\<close>, and when the arguments have
  no own key \<open>hasOwnProperty\<close> and no \<open>define\<close> array meets an existing \<open>define\<close> that cannot
  be iterated.
\<close>

theorem config_value_overrides:
  assumes "mergeUserArgs ld args userArgsFilePath = (log1, Inr existing)"
    and "distinct (map fst existing)"
    and "configFilePath \<noteq> []"
    and "import_module ld (fileUrl ld configFilePath) = Inr module"
    and "get_prop module ''default'' = JObject cfg"
    and "distinct (map fst cfg)"
    and "map_of cfg ''__proto__'' = None"
    and "k \<notin> set IGNORED_CONFIG_KEYS" and "k \<notin> set MERGE_CONFIG_KEYS"
    and "map_of cfg k = Some v" and "v \<noteq> JNull" and "v \<noteq> JUndefined"
  shows "(\<forall>log merged.
            runOneBuild_args ld args userArgsFilePath (Some configFilePath) = (log, Inr merged)
            \<longrightarrow> map_of merged k = Some v)
       \<and> (map_of cfg ''define'' = None
            \<or> (map_of existing ''hasOwnProperty'' = None
               \<and> (\<forall>xs. map_of cfg ''define'' = Some (JArray xs) \<and> map_of existing ''define'' \<noteq> None
                      \<longrightarrow> (\<exists>ys. iterate (get_prop existing ''define'') = Inr ys)))
          \<longrightarrow> (\<exists>log merged.
                 runOneBuild_args ld args userArgsFilePath (Some configFilePath) = (log, Inr merged)))"
proof (intro conjI allI impI)
  fix log merged
  assume run: "runOneBuild_args ld args userArgsFilePath (Some configFilePath) = (log, Inr merged)"
  from runOneBuild_args_completed [OF assms(1,3,4,5) run]
  obtain config where red: "reduceConfig configFilePath existing cfg ([], []) = (log, Inr config)"
    and merged: "merged = object_spread [JObject existing, JObject config]"
    by blast
  have "k \<noteq> ''__proto__''" using assms(7,10) by auto
  from reduceConfig_plain_key [OF red assms(6,8,9) this assms(10,11,12)]
  have "map_of config k = Some v" .
  then show "map_of merged k = Some v"
    unfolding merged using merged_lookup [OF red assms(2)] by (simp add: map_add_def)
next
  assume "map_of cfg ''define'' = None
            \<or> (map_of existing ''hasOwnProperty'' = None
               \<and> (\<forall>xs. map_of cfg ''define'' = Some (JArray xs) \<and> map_of existing ''define'' \<noteq> None
                      \<longrightarrow> (\<exists>ys. iterate (get_prop existing ''define'') = Inr ys)))"
  from assembly_completes [OF assms(1,3,4,5,6) this]
  show "\<exists>log merged.
          runOneBuild_args ld args userArgsFilePath (Some configFilePath) = (log, Inr merged)" .
qed

theorem config_value_overrides_witness:
  "\<exists>log merged.
     runOneBuild_args (sample_loader [(''minify'', JBool True)]) [(''minify'', JBool False)]
         None (Some ''esbuild.config.mjs'') = (log, Inr merged)
     \<and> map_of merged ''minify'' = Some (JBool True)"
proof -
  let ?cfg = "[(''minify'', JBool True)]"
  let ?ld = "sample_loader ?cfg"
  let ?existing = "[(''minify'', JBool False)]"
  have h1: "mergeUserArgs ?ld ?existing None = ([], Inr ?existing)"
    by (simp add: mergeUserArgs_def)
  have h2: "distinct (map fst ?existing)" by simp
  have h3: "''esbuild.config.mjs'' \<noteq> []" by simp
  have h4: "import_module ?ld (fileUrl ?ld ''esbuild.config.mjs'') = Inr [(''default'', JObject ?cfg)]"
    by (simp add: sample_loader_def)
  have h5: "get_prop [(''default'', JObject ?cfg)] ''default'' = JObject ?cfg"
    by (simp add: get_prop_def)
  have h6: "distinct (map fst ?cfg)" by simp
  have h7: "map_of ?cfg ''__proto__'' = None" by simp
  have h8: "''minify'' \<notin> set IGNORED_CONFIG_KEYS" by (simp add: IGNORED_CONFIG_KEYS_def)
  have h9: "''minify'' \<notin> set MERGE_CONFIG_KEYS" by (simp add: MERGE_CONFIG_KEYS_def)
  have h10: "map_of ?cfg ''minify'' = Some (JBool True)" by simp
  have nodef: "map_of ?cfg ''define'' = None" by simp
  note inst = config_value_overrides [OF h1 h2 h3 h4 h5 h6 h7 h8 h9 h10]
  from inst nodef obtain log merged where
    run: "runOneBuild_args ?ld ?existing None (Some ''esbuild.config.mjs'') = (log, Inr merged)"
    by auto
  with inst have "map_of merged ''minify'' = Some (JBool True)" by auto
  with run show ?thesis by blast
qed

text \<open>
  Ignored keys where the assembly completes: the merged specification has for the key
  exactly what the inline and parameter-file arguments had (a value, or none), and the
  warning that names the key is written exactly once.
\<close>

lemma ignored_key_kept_when_completed:
  assumes "mergeUserArgs ld args userArgsFilePath = (log1, Inr existing)"
    and "distinct (map fst existing)"
    and "configFilePath \<noteq> []"
    and "import_module ld (fileUrl ld configFilePath) = Inr module"
    and "get_prop module ''default'' = JObject cfg"
    and "distinct (map fst cfg)"
    and "k \<in> set [''bundle'', ''entryPoints'', ''external'', ''metafile'', ''outdir'', ''outfile'',
                    ''preserveSymlinks'', ''sourcemap'', ''splitting'']"
    and "map_of cfg k = Some v" and "v \<noteq> JNull" and "v \<noteq> JUndefined"
    and "runOneBuild_args ld args userArgsFilePath (Some configFilePath) = (log, Inr merged)"
  shows "map_of merged k = map_of existing k
         \<and> count_list log (ignoredWarning k configFilePath) = 1"
proof -
  from runOneBuild_args_completed [OF assms(1,3,4,5,11)]
  obtain config where red: "reduceConfig configFilePath existing cfg ([], []) = (log, Inr config)"
    and merged: "merged = object_spread [JObject existing, JObject config]"
    by blast
  have ign: "k \<in> set IGNORED_CONFIG_KEYS" using assms(7) by (simp add: IGNORED_CONFIG_KEYS_def)
  have "map_of config k = None"
    using reduceConfig_ignored_key [OF red ign] by simp
  then have keep: "map_of merged k = map_of existing k"
    unfolding merged using merged_lookup [OF red assms(2)] by (simp add: map_add_def)
  have once: "count_list log (ignoredWarning k configFilePath) = 1"
    using reduceConfig_ignored_warning [OF red assms(6) ign assms(8,9,10)] by simp
  from keep once show ?thesis ..
qed

text \<open>
  C4 (a defect of the code). The configuration module exports
  \<open>{define: ['a'], outfile: 'evil.js'}\<close> and the arguments are
  \<open>{outfile: 'bundle.js', define: {B: 3}}\<close>. The entry \<open>define\<close> comes first; its array
  spread of line 81 throws because the existing \<open>define\<close> is an object. The run ends there:
  nothing has been written to the standard error stream, so the ignored key \<open>outfile\<close> gets
  no warning, and there is no merged specification.
\<close>

theorem ignored_key_warning_lost_when_define_throws:
  "runOneBuild_args
       (sample_loader [(''define'', JArray [JStr ''a'']), (''outfile'', JStr ''evil.js'')])
       [(''outfile'', JStr ''bundle.js''), (''define'', JObject [(''B'', JNum 3)])]
       None (Some ''esbuild.config.mjs'')
     = ([], Inl (TypeError ''value is not iterable''))"
  by code_simp

text \<open>
  The key \<open>define\<close> where the call of line 76 does not throw, that is, where the arguments
  have no own key \<open>hasOwnProperty\<close>. When the configuration module and the existing arguments
  both hold an object, the assembly completes and the merged specification holds the spread
  of the two, whose entries are those of the configuration module overridden by the
  existing ones; when both hold an array, it holds the entries of the configuration module
  followed by the existing ones.
\<close>

lemma define_is_merged_when_not_shadowed:
  assumes "mergeUserArgs ld args userArgsFilePath = (log1, Inr existing)"
    and "distinct (map fst existing)"
    and "configFilePath \<noteq> []"
    and "import_module ld (fileUrl ld configFilePath) = Inr module"
    and "get_prop module ''default'' = JObject cfg"
    and "distinct (map fst cfg)"
    and "map_of existing ''hasOwnProperty'' = None"
  shows "(map_of cfg ''define'' = Some (JObject cv) \<and> map_of existing ''define'' = Some (JObject ev)
            \<and> distinct (map fst cv) \<and> distinct (map fst ev) \<longrightarrow>
           (\<exists>log merged.
              runOneBuild_args ld args userArgsFilePath (Some configFilePath) = (log, Inr merged)
              \<and> map_of merged ''define'' = Some (JObject (object_spread [JObject cv, JObject ev]))
              \<and> map_of (object_spread [JObject cv, JObject ev]) = map_of cv ++ map_of ev))
       \<and> (map_of cfg ''define'' = Some (JArray xs) \<and> map_of existing ''define'' = Some (JArray ys) \<longrightarrow>
           (\<exists>log merged.
              runOneBuild_args ld args userArgsFilePath (Some configFilePath) = (log, Inr merged)
              \<and> map_of merged ''define'' = Some (JArray (xs @ ys))))"
proof (intro conjI impI; elim conjE)
  have mk: "''define'' \<in> set MERGE_CONFIG_KEYS" by (simp add: MERGE_CONFIG_KEYS_def)
  {
    assume c: "map_of cfg ''define'' = Some (JObject cv)"
      and e: "map_of existing ''define'' = Some (JObject ev)"
      and dc: "distinct (map fst cv)" and de: "distinct (map fst ev)"
    have has: "hasOwnProperty existing ''define'' = Inr True"
      using e assms(7) by (simp add: hasOwnProperty_def)
    have ge: "get_prop existing ''define'' = JObject ev" using e by (simp add: get_prop_def)
    have "map_of existing ''hasOwnProperty'' = None
          \<and> (\<forall>xs. map_of cfg ''define'' = Some (JArray xs) \<and> map_of existing ''define'' \<noteq> None
                \<longrightarrow> (\<exists>ys. iterate (get_prop existing ''define'') = Inr ys))"
      using assms(7) c by simp
    then have "map_of cfg ''define'' = None
         \<or> (map_of existing ''hasOwnProperty'' = None
            \<and> (\<forall>xs. map_of cfg ''define'' = Some (JArray xs) \<and> map_of existing ''define'' \<noteq> None
                   \<longrightarrow> (\<exists>ys. iterate (get_prop existing ''define'') = Inr ys)))" ..
    from assembly_completes [OF assms(1,3,4,5,6) this]
    obtain log merged where
      run: "runOneBuild_args ld args userArgsFilePath (Some configFilePath) = (log, Inr merged)"
      by blast
    from runOneBuild_args_completed [OF assms(1,3,4,5) run]
    obtain config where red: "reduceConfig configFilePath existing cfg ([], []) = (log, Inr config)"
      and merged: "merged = object_spread [JObject existing, JObject config]"
      by blast
    have "map_of config ''define'' = Some (JObject (object_spread [JObject cv, JObject ev]))"
      using reduceConfig_merged_key [OF red assms(6) mk has c] ge by simp
    then have "map_of merged ''define'' = Some (JObject (object_spread [JObject cv, JObject ev]))"
      unfolding merged using merged_lookup [OF red assms(2)] by (simp add: map_add_def)
    with run map_of_object_spread [OF dc de]
    show "\<exists>log merged.
              runOneBuild_args ld args userArgsFilePath (Some configFilePath) = (log, Inr merged)
              \<and> map_of merged ''define'' = Some (JObject (object_spread [JObject cv, JObject ev]))
              \<and> map_of (object_spread [JObject cv, JObject ev]) = map_of cv ++ map_of ev"
      by blast
  }
  {
    assume c: "map_of cfg ''define'' = Some (JArray xs)"
      and e: "map_of existing ''define'' = Some (JArray ys)"
    have has: "hasOwnProperty existing ''define'' = Inr True"
      using e assms(7) by (simp add: hasOwnProperty_def)
    have ge: "get_prop existing ''define'' = JArray ys" using e by (simp add: get_prop_def)
    have "map_of existing ''hasOwnProperty'' = None
          \<and> (\<forall>xs. map_of cfg ''define'' = Some (JArray xs) \<and> map_of existing ''define'' \<noteq> None
                \<longrightarrow> (\<exists>ys. iterate (get_prop existing ''define'') = Inr ys))"
      using assms(7) ge by simp
    then have "map_of cfg ''define'' = None
         \<or> (map_of existing ''hasOwnProperty'' = None
            \<and> (\<forall>xs. map_of cfg ''define'' = Some (JArray xs) \<and> map_of existing ''define'' \<noteq> None
                   \<longrightarrow> (\<exists>ys. iterate (get_prop existing ''define'') = Inr ys)))" ..
    from assembly_completes [OF assms(1,3,4,5,6) this]
    obtain log merged where
      run: "runOneBuild_args ld args userArgsFilePath (Some configFilePath) = (log, Inr merged)"
      by blast
    from runOneBuild_args_completed [OF assms(1,3,4,5) run]
    obtain config where red: "reduceConfig configFilePath existing cfg ([], []) = (log, Inr config)"
      and merged: "merged = object_spread [JObject existing, JObject config]"
      by blast
    have "map_of config ''define'' = Some (JArray (xs @ ys))"
      using reduceConfig_merged_key [OF red assms(6) mk has c] ge by simp
    then have "map_of merged ''define'' = Some (JArray (xs @ ys))"
      unfolding merged using merged_lookup [OF red assms(2)] by (simp add: map_add_def)
    with run
    show "\<exists>log merged.
              runOneBuild_args ld args userArgsFilePath (Some configFilePath) = (log, Inr merged)
              \<and> map_of merged ''define'' = Some (JArray (xs @ ys))"
      by blast
  }
qed

text \<open>The example of the specification: \<open>{A:1,B:2}\<close> merged with the existing \<open>{B:3,C:4}\<close>.\<close>

lemma define_merge_example:
  "runOneBuild_args
       (sample_loader [(''define'', JObject [(''A'', JNum 1), (''B'', JNum 2)])])
       [(''define'', JObject [(''B'', JNum 3), (''C'', JNum 4)])]
       None (Some ''esbuild.config.mjs'')
     = ([], Inr [(''define'', JObject [(''A'', JNum 1), (''B'', JNum 3), (''C'', JNum 4)])])"
  by code_simp

text \<open>
  C5 (a defect of the code). The arguments are
  \<open>{define: {B: 3, C: 4}, hasOwnProperty: 1}\<close> and the configuration module exports
  \<open>{define: {A: 1, B: 2}}\<close>: both supply a keyed mapping. Line 76 calls
  \<open>existingArgs.hasOwnProperty\<close> through the arguments, finds the number, and throws. The
  run ends there and no merged \<open>define\<close> exists.
\<close>

theorem define_merge_throws_when_hasOwnProperty_shadowed:
  "runOneBuild_args
       (sample_loader [(''define'', JObject [(''A'', JNum 1), (''B'', JNum 2)])])
       [(''define'', JObject [(''B'', JNum 3), (''C'', JNum 4)]), (''hasOwnProperty'', JNum 1)]
       None (Some ''esbuild.config.mjs'')
     = ([], Inl (TypeError ''hasOwnProperty is not a function''))"
  by code_simp

end
